theory Spec2Isabelle
  imports Complex_Main "HOL-Library.Word" "HOL-Library.Sublist" "HOL-Library.AList"
begin

section \<open>Python values and exceptions\<close>

text \<open>
  The server of \<^verbatim>\<open>websocket_server.py\<close> works on whatever \<^verbatim>\<open>json.loads\<close> returns,
  so the model works on decoded JSON values. A Python \<^verbatim>\<open>dict\<close> is an association list in
  insertion order (keys distinct, as in a dict); a \<^verbatim>\<open>str\<close> is a list of code points
  below 256; a \<^verbatim>\<open>float\<close> is idealised as a real number.
\<close>

datatype json =
    JNull
  | JBool bool
  | JInt int
  | JFloat real
  | JStr string
  | JArr "json list"
  | JObj "(string \<times> json) list"

datatype kind =
    ValueError | TypeError | AttributeError | KeyError | PermissionError | FileNotFoundError
  | OSError | BinasciiError | JSONDecodeError | RecursionError | UnicodeDecodeError
  | ConnectionClosed | RuntimeError

text \<open>An exception: its class and the text that \<^verbatim>\<open>str(e)\<close> gives.\<close>

datatype exc = Exc kind string

fun str_exc :: "exc \<Rightarrow> string" where
  "str_exc (Exc k m) = m"

fun kind_of :: "exc \<Rightarrow> kind" where
  "kind_of (Exc k m) = k"

text \<open>Sequencing of a computation that may raise: the first exception wins.\<close>

definition bnd :: "exc + 'a \<Rightarrow> ('a \<Rightarrow> exc + 'b) \<Rightarrow> exc + 'b" where
  "bnd m f = (case m of Inl e \<Rightarrow> Inl e | Inr x \<Rightarrow> f x)"

definition quoted :: "string \<Rightarrow> string" where
  "quoted s = [CHR 0x27] @ s @ [CHR 0x27]"

text \<open>Decimal digits of a natural number, as \<^verbatim>\<open>str(n)\<close> prints them.\<close>

fun show_nat :: "nat \<Rightarrow> string" where
  "show_nat n =
     (if n < 10 then [char_of (48 + n)] else show_nat (n div 10) @ [char_of (48 + n mod 10)])"

declare show_nat.simps [simp del]

fun type_name :: "json \<Rightarrow> string" where
  "type_name JNull = ''NoneType''"
| "type_name (JBool b) = ''bool''"
| "type_name (JInt i) = ''int''"
| "type_name (JFloat r) = ''float''"
| "type_name (JStr s) = ''str''"
| "type_name (JArr xs) = ''list''"
| "type_name (JObj kvs) = ''dict''"

text \<open>Truth value of a Python object, as \<^verbatim>\<open>if x\<close> and \<^verbatim>\<open>not x\<close> take it.\<close>

fun truthy :: "json \<Rightarrow> bool" where
  "truthy JNull = False"
| "truthy (JBool b) = b"
| "truthy (JInt i) = (i \<noteq> 0)"
| "truthy (JFloat r) = (r \<noteq> 0)"
| "truthy (JStr s) = (s \<noteq> [])"
| "truthy (JArr xs) = (xs \<noteq> [])"
| "truthy (JObj kvs) = (kvs \<noteq> [])"

text \<open>\<^verbatim>\<open>needle in hay\<close> for two strings: a contiguous occurrence.\<close>

fun occurs_in :: "string \<Rightarrow> string \<Rightarrow> bool" where
  "occurs_in p [] = (p = [])"
| "occurs_in p (c # cs) = (prefix p (c # cs) \<or> occurs_in p cs)"

text \<open>\<^verbatim>\<open>key in x\<close> for a string key: key lookup in a dict, element lookup in a list,
  substring test in a string, \<^verbatim>\<open>TypeError\<close> otherwise.\<close>

fun py_in :: "string \<Rightarrow> json \<Rightarrow> exc + bool" where
  "py_in k (JObj kvs) = Inr (map_of kvs k \<noteq> None)"
| "py_in k (JArr xs) = Inr (JStr k \<in> set xs)"
| "py_in k (JStr s) = Inr (occurs_in k s)"
| "py_in k v =
     Inl (Exc TypeError (''argument of type '' @ quoted (type_name v) @ '' is not iterable''))"

text \<open>\<^verbatim>\<open>x[key]\<close> for a string key.\<close>

fun py_getitem :: "json \<Rightarrow> string \<Rightarrow> exc + json" where
  "py_getitem (JObj kvs) k =
     (case map_of kvs k of
        None \<Rightarrow> Inl (Exc KeyError (quoted k))
      | Some v \<Rightarrow> Inr v)"
| "py_getitem (JStr s) k = Inl (Exc TypeError ''string indices must be integers'')"
| "py_getitem (JArr xs) k = Inl (Exc TypeError ''list indices must be integers or slices, not str'')"
| "py_getitem v k =
     Inl (Exc TypeError (quoted (type_name v) @ '' object is not subscriptable''))"

definition no_attribute :: "json \<Rightarrow> string \<Rightarrow> exc" where
  "no_attribute v a =
     Exc AttributeError (quoted (type_name v) @ '' object has no attribute '' @ quoted a)"

text \<open>\<^verbatim>\<open>x.get(key, default)\<close>: only a dict has the method.\<close>

fun py_get :: "json \<Rightarrow> string \<Rightarrow> json \<Rightarrow> exc + json" where
  "py_get (JObj kvs) k d = Inr (case map_of kvs k of None \<Rightarrow> d | Some v \<Rightarrow> v)"
| "py_get v k d = Inl (no_attribute v ''get'')"

subsection \<open>Strings\<close>

text \<open>\<^verbatim>\<open>str.lower\<close> on code points below 256: the ASCII and Latin-1 capitals move by 32.\<close>

definition lower_char :: "char \<Rightarrow> char" where
  "lower_char c =
     (let n = (of_char c :: nat)
      in if (65 \<le> n \<and> n \<le> 90) \<or> (192 \<le> n \<and> n \<le> 214) \<or> (216 \<le> n \<and> n \<le> 222)
         then char_of (n + 32) else c)"

definition lower :: "string \<Rightarrow> string" where
  "lower s = map lower_char s"

fun py_lower :: "json \<Rightarrow> exc + string" where
  "py_lower (JStr s) = Inr (lower s)"
| "py_lower v = Inl (no_attribute v ''lower'')"

text \<open>The characters \<^verbatim>\<open>str.strip()\<close> removes (\<^verbatim>\<open>str.isspace\<close>), below 256.\<close>

definition is_space :: "char \<Rightarrow> bool" where
  "is_space c = ((of_char c :: nat) \<in> {9, 10, 11, 12, 13, 28, 29, 30, 31, 32, 133, 160})"

definition strip :: "string \<Rightarrow> string" where
  "strip s = rev (dropWhile is_space (rev (dropWhile is_space s)))"

text \<open>\<^verbatim>\<open>repr\<close> of a list of plain identifiers, as an f-string prints
  \<^verbatim>\<open>list(SUPPORTED_LANGUAGES.keys())\<close>: \<^verbatim>\<open>['ar', 'da']\<close>.\<close>

fun join_repr :: "string list \<Rightarrow> string" where
  "join_repr [] = []"
| "join_repr [k] = quoted k"
| "join_repr (k # ks) = quoted k @ '', '' @ join_repr ks"

definition repr_list :: "string list \<Rightarrow> string" where
  "repr_list ks = ''['' @ join_repr ks @ '']''"

section \<open>Request validation: \<^verbatim>\<open>_validate_config\<close>\<close>

text \<open>The \<^verbatim>\<open>defaults\<close> dict of lines 96-104, in insertion order.\<close>

definition defaults :: "(string \<times> json) list" where
  "defaults =
     [(''language_id'', JStr ''es''),
      (''exaggeration'', JFloat (1/2)),
      (''temperature'', JFloat (4/5)),
      (''cfg_weight'', JFloat (1/2)),
      (''repetition_penalty'', JFloat 2),
      (''min_p'', JFloat (1/20)),
      (''top_p'', JFloat 1)]"

text \<open>The chained comparison \<^verbatim>\<open>lo <= v <= hi\<close> with float literals \<open>lo\<close> and \<open>hi\<close>:
  numbers (and booleans, which are integers in Python) compare by value, anything else
  raises \<^verbatim>\<open>TypeError\<close> at the first comparison.\<close>

fun between :: "real \<Rightarrow> json \<Rightarrow> real \<Rightarrow> exc + bool" where
  "between lo (JInt i) hi = Inr (lo \<le> real_of_int i \<and> real_of_int i \<le> hi)"
| "between lo (JFloat r) hi = Inr (lo \<le> r \<and> r \<le> hi)"
| "between lo (JBool b) hi = Inr (lo \<le> (if b then 1 else 0) \<and> (if b then 1 else 0) \<le> hi)"
| "between lo v hi =
     Inl (Exc TypeError (quoted ''<='' @ '' not supported between instances of '' @ quoted ''float''
                           @ '' and '' @ quoted (type_name v)))"

text \<open>Lines 106-111: the language check. \<open>langs\<close> are the keys of
  \<^verbatim>\<open>SUPPORTED_LANGUAGES\<close>, a constant of the imported \<^verbatim>\<open>chatterbox.mtl_tts\<close>.\<close>

definition validate_language ::
    "string list \<Rightarrow> json \<Rightarrow> (string \<times> json) list \<Rightarrow> exc + (string \<times> json) list" where
  "validate_language langs config d =
     bnd (py_in ''language_id'' config) (\<lambda>present.
       if present then
         bnd (py_getitem config ''language_id'') (\<lambda>v.
         bnd (py_lower v) (\<lambda>lang.
           if lang \<notin> set langs
           then Inl (Exc ValueError (''Unsupported language: '' @ lang
                       @ ''. Supported languages: '' @ repr_list langs))
           else Inr (AList.update ''language_id'' (JStr lang) d)))
       else Inr d)"

text \<open>One arm of the \<^verbatim>\<open>if\<close>/\<^verbatim>\<open>elif\<close> chain of lines 116-127:
  \<^verbatim>\<open>key == name and not (lo <= config[key] <= hi)\<close> raises, otherwise the next arm is tried.\<close>

definition arm :: "bool \<Rightarrow> exc + bool \<Rightarrow> string \<Rightarrow> exc + unit \<Rightarrow> exc + unit" where
  "arm is_key in_range msg rest =
     (if is_key
      then bnd in_range (\<lambda>ok. if \<not> ok then Inl (Exc ValueError msg) else rest)
      else rest)"

definition check_range :: "string \<Rightarrow> json \<Rightarrow> exc + unit" where
  "check_range key config =
     arm (key = ''exaggeration'')
         (bnd (py_getitem config key) (\<lambda>v. between (1/4) v 2))
         ''Exaggeration must be between 0.25 and 2.0''
    (arm (key = ''temperature'')
         (bnd (py_getitem config key) (\<lambda>v. between (1/20) v 5))
         ''Temperature must be between 0.05 and 5.0''
    (arm (key = ''cfg_weight'')
         (bnd (py_getitem config key) (\<lambda>v. between 0 v 1))
         ''CFG weight must be between 0.0 and 1.0''
    (arm (key = ''repetition_penalty'')
         (bnd (py_getitem config key) (\<lambda>v. between 1 v 3))
         ''Repetition penalty must be between 1.0 and 3.0''
    (arm (key = ''min_p'')
         (bnd (py_getitem config key) (\<lambda>v. between 0 v 1))
         ''Min_p must be between 0.0 and 1.0''
    (arm (key = ''top_p'')
         (bnd (py_getitem config key) (\<lambda>v. between 0 v 1))
         ''Top_p must be between 0.0 and 1.0''
    (Inr ()))))))"

text \<open>Lines 114-128: the loop over \<^verbatim>\<open>defaults.items()\<close>. Every key found in \<open>config\<close>,
  \<^verbatim>\<open>language_id\<close> included, ends with \<^verbatim>\<open>defaults[key] = config[key]\<close>.\<close>

fun validate_loop ::
    "json \<Rightarrow> string list \<Rightarrow> (string \<times> json) list \<Rightarrow> exc + (string \<times> json) list" where
  "validate_loop config [] d = Inr d"
| "validate_loop config (key # keys) d =
     bnd (py_in key config) (\<lambda>present.
       if present then
         bnd (check_range key config) (\<lambda>_.
         bnd (py_getitem config key) (\<lambda>v.
           validate_loop config keys (AList.update key v d)))
       else validate_loop config keys d)"

definition validate_config :: "string list \<Rightarrow> json \<Rightarrow> exc + (string \<times> json) list" where
  "validate_config langs config =
     bnd (validate_language langs config defaults) (\<lambda>d.
       validate_loop config (map fst d) d)"

text \<open>The ranges and messages of lines 116-127 as a table, for stating properties.\<close>

definition ranges :: "(string \<times> real \<times> real \<times> string) list" where
  "ranges =
     [(''exaggeration'', 1/4, 2, ''Exaggeration must be between 0.25 and 2.0''),
      (''temperature'', 1/20, 5, ''Temperature must be between 0.05 and 5.0''),
      (''cfg_weight'', 0, 1, ''CFG weight must be between 0.0 and 1.0''),
      (''repetition_penalty'', 1, 3, ''Repetition penalty must be between 1.0 and 3.0''),
      (''min_p'', 0, 1, ''Min_p must be between 0.0 and 1.0''),
      (''top_p'', 0, 1, ''Top_p must be between 0.0 and 1.0'')]"

text \<open>What the loop leaves in the result for each key of \<open>defaults\<close>: the supplied value
  where the client gave one, the default otherwise.\<close>

definition overlay :: "(string \<times> json) list \<Rightarrow> (string \<times> json) list \<Rightarrow> (string \<times> json) list" where
  "overlay kvs d = map (\<lambda>(k, dv). (k, case map_of kvs k of None \<Rightarrow> dv | Some v \<Rightarrow> v)) d"

definition language_ok :: "string list \<Rightarrow> (string \<times> json) list \<Rightarrow> bool" where
  "language_ok langs kvs =
     (case map_of kvs ''language_id'' of
        None \<Rightarrow> True
      | Some (JStr s) \<Rightarrow> lower s \<in> set langs
      | Some _ \<Rightarrow> False)"

definition field_ok :: "(string \<times> json) list \<Rightarrow> string \<times> real \<times> real \<times> string \<Rightarrow> bool" where
  "field_ok kvs r =
     (case r of (k, lo, hi, msg) \<Rightarrow>
        (case map_of kvs k of None \<Rightarrow> True | Some v \<Rightarrow> between lo v hi = Inr True))"

text \<open>One step of the loop seen from the result: a supplied key overwrites the entry.\<close>

definition keep :: "(string \<times> json) list \<Rightarrow> string \<Rightarrow> (string \<times> json) list \<Rightarrow> (string \<times> json) list" where
  "keep kvs k d = (case map_of kvs k of None \<Rightarrow> d | Some v \<Rightarrow> AList.update k v d)"

text \<open>An exception \<open>e\<close> that the range check of table row \<open>r\<close> raises on the supplied value:
  the row's \<^verbatim>\<open>ValueError\<close> when the value is a number outside the range, the comparison's
  own \<^verbatim>\<open>TypeError\<close> when it is not a number.\<close>

definition rejected_by :: "(string \<times> json) list \<Rightarrow> exc \<Rightarrow> string \<times> real \<times> real \<times> string \<Rightarrow> bool" where
  "rejected_by kvs e r =
     (case r of (k, lo, hi, msg) \<Rightarrow>
        (case map_of kvs k of
           None \<Rightarrow> False
         | Some v \<Rightarrow> between lo v hi = Inl e \<or> (between lo v hi = Inr False \<and> e = Exc ValueError msg)))"

section \<open>The codec: base64\<close>

text \<open>
  \<^verbatim>\<open>base64.b64encode\<close> and \<^verbatim>\<open>base64.b64decode\<close> are library functions; they are
  modelled after RFC 4648 and CPython's \<^verbatim>\<open>binascii\<close>, which \<^verbatim>\<open>base64\<close> calls. A byte is
  an 8-bit word; the shifts and masks of the C code are written as \<open>div\<close> and \<open>mod\<close> on
  the unsigned value.
\<close>

type_synonym byte = "8 word"

definition alphabet :: string where
  "alphabet = ''ABCDEFGHIJKLMNOPQRSTUVWXYZabcdefghijklmnopqrstuvwxyz0123456789+/''"

text \<open>The character of a 6-bit value.\<close>

definition b2a :: "nat \<Rightarrow> char" where
  "b2a i = alphabet ! i"

fun index_of :: "char \<Rightarrow> string \<Rightarrow> nat option" where
  "index_of c [] = None"
| "index_of c (x # xs) = (if c = x then Some 0 else map_option Suc (index_of c xs))"

text \<open>The 6-bit value of a character, \<open>None\<close> for a character outside the alphabet.\<close>

definition a2b :: "char \<Rightarrow> nat option" where
  "a2b c = index_of c alphabet"

text \<open>\<^verbatim>\<open>base64.b64encode\<close>: three bytes make four characters, the last group is padded.\<close>

fun b64encode :: "byte list \<Rightarrow> string" where
  "b64encode [] = []"
| "b64encode [a] =
     [b2a (unat a div 4), b2a (unat a mod 4 * 16), CHR ''='', CHR ''='']"
| "b64encode [a, b] =
     [b2a (unat a div 4), b2a (unat a mod 4 * 16 + unat b div 16),
      b2a (unat b mod 16 * 4), CHR ''='']"
| "b64encode (a # b # c # rest) =
     [b2a (unat a div 4), b2a (unat a mod 4 * 16 + unat b div 16),
      b2a (unat b mod 16 * 4 + unat c div 64), b2a (unat c mod 64)] @ b64encode rest"

text \<open>
  The loop of \<^verbatim>\<open>binascii.a2b_base64\<close> (non-strict mode), with its state: the position
  \<open>quad_pos\<close> inside the current group of four, the bits left over in \<open>leftchar\<close>, the
  padding characters seen, the bytes written. Characters outside the alphabet are
  skipped; enough padding after two or three characters of a group ends the input; an
  incomplete group at the end of the input is an error.
\<close>

fun a2b_base64 :: "nat \<Rightarrow> nat \<Rightarrow> nat \<Rightarrow> byte list \<Rightarrow> string \<Rightarrow> exc + byte list" where
  "a2b_base64 quad_pos leftchar pads out [] =
     (if quad_pos = 0 then Inr out
      else if quad_pos = 1 then
        Inl (Exc BinasciiError (''Invalid base64-encoded string: number of data characters (''
               @ show_nat (length out div 3 * 4 + 1)
               @ '') cannot be 1 more than a multiple of 4''))
      else Inl (Exc BinasciiError ''Incorrect padding''))"
| "a2b_base64 quad_pos leftchar pads out (c # cs) =
     (if c = CHR ''='' then
        (if 2 \<le> quad_pos \<and> 4 \<le> quad_pos + (pads + 1) then Inr out
         else a2b_base64 quad_pos leftchar (if 2 \<le> quad_pos then pads + 1 else pads) out cs)
      else
        (case a2b c of
           None \<Rightarrow> a2b_base64 quad_pos leftchar pads out cs
         | Some v \<Rightarrow>
             (if quad_pos = 0 then a2b_base64 1 v 0 out cs
              else if quad_pos = 1 then
                a2b_base64 2 (v mod 16) 0 (out @ [of_nat (leftchar * 4 + v div 16)]) cs
              else if quad_pos = 2 then
                a2b_base64 3 (v mod 4) 0 (out @ [of_nat (leftchar * 16 + v div 4)]) cs
              else a2b_base64 0 0 0 (out @ [of_nat (leftchar * 64 + v)]) cs)))"

text \<open>\<^verbatim>\<open>base64.b64decode(s)\<close>: a \<^verbatim>\<open>str\<close> must be ASCII, any other JSON value is not
  bytes-like.\<close>

definition b64decode :: "json \<Rightarrow> exc + byte list" where
  "b64decode v =
     (case v of
        JStr s \<Rightarrow>
          (if list_all (\<lambda>c. (of_char c :: nat) < 128) s then a2b_base64 0 0 0 [] s
           else Inl (Exc ValueError ''string argument should contain only ASCII characters''))
      | _ \<Rightarrow> Inl (Exc TypeError (''argument should be a bytes-like object or ASCII string, not ''
                       @ quoted (type_name v))))"

section \<open>The environment: model, temporary files, log\<close>

text \<open>
  What the server takes from outside the two source files: the model object
  (\<^verbatim>\<open>self.model.generate\<close>, \<^verbatim>\<open>self.model.sr\<close>), the tensor conversion and \<^verbatim>\<open>torchaudio.save\<close>
  (the bytes of the WAV file they write, or the exception they raise), the keys of
  \<^verbatim>\<open>SUPPORTED_LANGUAGES\<close>, the device string, and \<^verbatim>\<open>str()\<close> of a JSON value that is not a
  string. \<open>'a\<close> is the type of audio tensors.
\<close>

record gen_call =
  gen_text :: string
  gen_config :: "(string \<times> json) list"
  audio_prompt_path :: "nat option"

record 'a env =
  generate :: "gen_call \<Rightarrow> exc + 'a"
  sr :: int
  to_numpy :: "'a \<Rightarrow> exc + 'a"
  torchaudio_save :: "'a \<Rightarrow> int \<Rightarrow> exc + byte list"
  SUPPORTED_LANGUAGES :: "string list"
  device :: string
  str_other :: "json \<Rightarrow> string"

text \<open>\<^verbatim>\<open>str(v)\<close>, as an f-string formats a value.\<close>

definition py_str :: "'a env \<Rightarrow> json \<Rightarrow> string" where
  "py_str E v = (case v of JStr s \<Rightarrow> s | _ \<Rightarrow> str_other E v)"

datatype log_entry = LogInfo string | LogWarning string | LogError string | LogTraceback exc

text \<open>
  The state the request handler works on: the temporary files (a path is the number in a
  name that \<^verbatim>\<open>tempfile\<close> made up, with the bytes of the file), the paths on which
  \<^verbatim>\<open>os.unlink\<close> fails (a file still locked, as the comment at lines 91-92 describes),
  the paths on which \<^verbatim>\<open>write\<close> fails (no space left on the device), the log, and the
  calls made to the model.
\<close>

record world =
  files :: "(nat \<times> byte list) list"
  undeletable :: "nat set"
  unwritable :: "nat set"
  logs :: "log_entry list"
  calls :: "gen_call list"

definition path_name :: "nat \<Rightarrow> string" where
  "path_name p = ''/tmp/tmp'' @ show_nat p @ ''.wav''"

text \<open>\<^verbatim>\<open>tempfile.NamedTemporaryFile\<close> picks a name that no existing file has.\<close>

fun fresh_path :: "(nat \<times> byte list) list \<Rightarrow> nat" where
  "fresh_path [] = 0"
| "fresh_path ((p, content) # fs) = max (Suc p) (fresh_path fs)"

definition exists :: "nat \<Rightarrow> world \<Rightarrow> bool" where
  "exists p w = (map_of (files w) p \<noteq> None)"

definition unlink :: "nat \<Rightarrow> world \<Rightarrow> exc + world" where
  "unlink p w =
     (if \<not> exists p w then
        Inl (Exc FileNotFoundError (''[Errno 2] No such file or directory: '' @ quoted (path_name p)))
      else if p \<in> undeletable w then
        Inl (Exc PermissionError (''[Errno 13] Permission denied: '' @ quoted (path_name p)))
      else Inr (w\<lparr>files := AList.delete p (files w)\<rparr>))"

definition log_to :: "log_entry \<Rightarrow> world \<Rightarrow> world" where
  "log_to entry w = w\<lparr>logs := logs w @ [entry]\<rparr>"

section \<open>The codec on files: \<^verbatim>\<open>_decode_audio\<close> and \<^verbatim>\<open>_encode_audio\<close>\<close>

text \<open>Lines 49-58. Any failure is logged and replaced by one \<^verbatim>\<open>ValueError\<close>; on success
  the decoded bytes are in a new file whose path is returned. The file is created
  (\<^verbatim>\<open>delete=False\<close>) before \<^verbatim>\<open>write\<close> runs: when \<^verbatim>\<open>write\<close> raises, the file exists, empty,
  and its path is not returned.\<close>

definition decode_audio :: "json \<Rightarrow> world \<Rightarrow> (exc + nat) \<times> world" where
  "decode_audio base64_audio w =
     (case b64decode base64_audio of
        Inl e \<Rightarrow>
          (Inl (Exc ValueError ''Invalid base64 audio data''),
           log_to (LogError (''Failed to decode audio: '' @ str_exc e)) w)
      | Inr audio_data \<Rightarrow>
          (let temp_file = fresh_path (files w);
               w1 = w\<lparr>files := AList.update temp_file [] (files w)\<rparr>
           in if temp_file \<in> unwritable w then
                (Inl (Exc ValueError ''Invalid base64 audio data''),
                 log_to (LogError (''Failed to decode audio: ''
                           @ str_exc (Exc OSError ''[Errno 28] No space left on device''))) w1)
              else
                (Inr temp_file, w1\<lparr>files := AList.update temp_file audio_data (files w1)\<rparr>)))"

text \<open>Lines 84-92, the \<^verbatim>\<open>finally\<close> clause of \<^verbatim>\<open>_encode_audio\<close>: a failing \<^verbatim>\<open>os.unlink\<close> is
  caught and logged as a warning.\<close>

definition encode_finally :: "nat option \<Rightarrow> world \<Rightarrow> world" where
  "encode_finally temp_file_path w =
     (case temp_file_path of
        None \<Rightarrow> w
      | Some p \<Rightarrow>
          (if exists p w then
             (case unlink p w of
                Inl e \<Rightarrow> log_to (LogWarning (''Could not delete temporary file '' @ path_name p
                                      @ '': '' @ str_exc e)) w
              | Inr w' \<Rightarrow> w')
           else w))"

text \<open>Lines 60-83: convert the tensor, write it to a new temporary file, read the file
  back and encode its bytes. An exception is logged and raised again; the \<^verbatim>\<open>finally\<close>
  clause runs on every path.\<close>

definition encode_audio :: "'a env \<Rightarrow> 'a \<Rightarrow> int \<Rightarrow> world \<Rightarrow> (exc + string) \<times> world" where
  "encode_audio E audio_tensor sample_rate w =
     (case to_numpy E audio_tensor of
        Inl e \<Rightarrow>
          (Inl e, encode_finally None (log_to (LogError (''Failed to encode audio: '' @ str_exc e)) w))
      | Inr audio_np \<Rightarrow>
          (let p = fresh_path (files w);
               w1 = w\<lparr>files := AList.update p [] (files w)\<rparr>
           in case torchaudio_save E audio_np sample_rate of
                Inl e \<Rightarrow>
                  (Inl e, encode_finally (Some p)
                            (log_to (LogError (''Failed to encode audio: '' @ str_exc e)) w1))
              | Inr audio_data \<Rightarrow>
                  (Inr (b64encode audio_data),
                   encode_finally (Some p) (w1\<lparr>files := AList.update p audio_data (files w1)\<rparr>))))"

section \<open>The request: \<^verbatim>\<open>process_tts_request\<close>\<close>

definition tts_response_error :: "string \<Rightarrow> json" where
  "tts_response_error message =
     JObj [(''type'', JStr ''tts_response''),
           (''data'', JObj [(''audio'', JNull), (''status'', JStr ''error''),
                            (''message'', JStr message)])]"

definition tts_response_success :: "'a env \<Rightarrow> string \<Rightarrow> json \<Rightarrow> json" where
  "tts_response_success E audio_base64 language =
     JObj [(''type'', JStr ''tts_response''),
           (''data'', JObj [(''audio'', JStr audio_base64), (''status'', JStr ''success''),
                            (''message'', JStr (''Generated audio for '' @ quoted (py_str E language)
                                                @ '' text'')),
                            (''sample_rate'', JInt (sr E)),
                            (''language'', language)])]"

text \<open>Lines 136-146: the text must be present and not blank; a text of more than 500
  characters is cut to its first 500 and a warning is logged.\<close>

definition tts_text :: "json \<Rightarrow> world \<Rightarrow> (exc + string) \<times> world" where
  "tts_text data w =
     (case py_in ''text'' data of
        Inl e \<Rightarrow> (Inl e, w)
      | Inr present \<Rightarrow>
          if \<not> present then (Inl (Exc ValueError ''Missing required field: text''), w)
          else
            (case py_getitem data ''text'' of
               Inl e \<Rightarrow> (Inl e, w)
             | Inr text \<Rightarrow>
                 if \<not> truthy text then (Inl (Exc ValueError ''Text cannot be empty''), w)
                 else
                   (case text of
                      JStr t \<Rightarrow>
                        if strip t = [] then (Inl (Exc ValueError ''Text cannot be empty''), w)
                        else if length t > 500
                        then (Inr (take 500 t),
                              log_to (LogWarning ''Text truncated to 500 characters'') w)
                        else (Inr t, w)
                    | _ \<Rightarrow> (Inl (no_attribute text ''strip''), w))))"

text \<open>Lines 149-150.\<close>

definition tts_config :: "'a env \<Rightarrow> json \<Rightarrow> exc + (string \<times> json) list" where
  "tts_config E data =
     bnd (py_get data ''config'' (JObj [])) (validate_config (SUPPORTED_LANGUAGES E))"

text \<open>Lines 153-155: the value of \<^verbatim>\<open>reference_audio_path\<close>.\<close>

definition tts_reference :: "json \<Rightarrow> world \<Rightarrow> (exc + nat option) \<times> world" where
  "tts_reference data w =
     (case py_in ''reference_audio'' data of
        Inl e \<Rightarrow> (Inl e, w)
      | Inr present \<Rightarrow>
          if \<not> present then (Inr None, w)
          else
            (case py_getitem data ''reference_audio'' of
               Inl e \<Rightarrow> (Inl e, w)
             | Inr reference_audio \<Rightarrow>
                 if \<not> truthy reference_audio then (Inr None, w)
                 else
                   (case decode_audio reference_audio w of
                      (Inl e, w') \<Rightarrow> (Inl e, w')
                    | (Inr p, w') \<Rightarrow> (Inr (Some p), w'))))"

text \<open>The clean-up written twice, at lines 177-178 and 196-197:
  \<^verbatim>\<open>if reference_audio_path and os.path.exists(reference_audio_path): os.unlink(reference_audio_path)\<close>.
  Nothing catches an exception of \<^verbatim>\<open>os.unlink\<close> here.\<close>

definition unlink_reference :: "nat option \<Rightarrow> world \<Rightarrow> exc + world" where
  "unlink_reference reference_audio_path w =
     (case reference_audio_path of
        None \<Rightarrow> Inr w
      | Some p \<Rightarrow> if exists p w then unlink p w else Inr w)"

text \<open>Lines 157-189: log, call the model, encode the audio, remove the reference file,
  build the response.\<close>

definition tts_generate ::
    "'a env \<Rightarrow> string \<Rightarrow> (string \<times> json) list \<Rightarrow> nat option \<Rightarrow> world \<Rightarrow> (exc + json) \<times> world" where
  "tts_generate E text config reference_audio_path w =
     (case py_getitem (JObj config) ''language_id'' of
        Inl e \<Rightarrow> (Inl e, w)
      | Inr language \<Rightarrow>
          (let call = \<lparr>gen_text = text, gen_config = config,
                        audio_prompt_path = reference_audio_path\<rparr>;
               w1 = (log_to (LogInfo (''Generating TTS for text: '' @ quoted (take 50 text @ ''...'')
                                       @ '' in language: '' @ py_str E language)) w)
                      \<lparr>calls := calls w @ [call]\<rparr>
           in case generate E call of
                Inl e \<Rightarrow> (Inl e, w1)
              | Inr audio_tensor \<Rightarrow>
                  (case encode_audio E audio_tensor (sr E) w1 of
                     (Inl e, w2) \<Rightarrow> (Inl e, w2)
                   | (Inr audio_base64, w2) \<Rightarrow>
                       (case unlink_reference reference_audio_path w2 of
                          Inl e \<Rightarrow> (Inl e, w2)
                        | Inr w3 \<Rightarrow> (Inr (tts_response_success E audio_base64 language), w3)))))"

text \<open>Lines 191-206, the \<^verbatim>\<open>except Exception\<close> clause: log, remove the reference file if
  \<^verbatim>\<open>reference_audio_path\<close> is set, return the error response. An exception raised in the
  clause leaves \<^verbatim>\<open>process_tts_request\<close>.\<close>

definition tts_except :: "exc \<Rightarrow> nat option \<Rightarrow> world \<Rightarrow> (exc + json) \<times> world" where
  "tts_except e reference_audio_path w =
     (let w1 = log_to (LogTraceback e)
                 (log_to (LogError (''Error processing TTS request: '' @ str_exc e)) w)
      in case unlink_reference reference_audio_path w1 of
           Inl e' \<Rightarrow> (Inl e', w1)
         | Inr w2 \<Rightarrow> (Inr (tts_response_error (str_exc e)), w2))"

text \<open>Lines 148-189 with the \<^verbatim>\<open>except\<close> clause around them: what the request does once
  the text to synthesize is fixed.\<close>

definition tts_synthesize :: "'a env \<Rightarrow> string \<Rightarrow> json \<Rightarrow> world \<Rightarrow> (exc + json) \<times> world" where
  "tts_synthesize E text data w1 =
     (case tts_config E data of
        Inl e \<Rightarrow> tts_except e None w1
      | Inr config \<Rightarrow>
          (case tts_reference data w1 of
             (Inl e, w2) \<Rightarrow> tts_except e None w2
           | (Inr reference_audio_path, w2) \<Rightarrow>
               (case tts_generate E text config reference_audio_path w2 of
                  (Inl e, w3) \<Rightarrow> tts_except e reference_audio_path w3
                | (Inr response, w3) \<Rightarrow> (Inr response, w3))))"

text \<open>Lines 132-206. \<open>Inl\<close> is an exception that leaves the function.\<close>

definition process_tts_request :: "'a env \<Rightarrow> json \<Rightarrow> world \<Rightarrow> (exc + json) \<times> world" where
  "process_tts_request E data w =
     (case tts_text data w of
        (Inl e, w1) \<Rightarrow> tts_except e None w1
      | (Inr text, w1) \<Rightarrow> tts_synthesize E text data w1)"

text \<open>A stubbed model that returns fixed samples, with a codec stub that writes four
  bytes, and a state with no files: the inputs of the worked examples.\<close>

definition stub_env :: "nat env" where
  "stub_env =
     \<lparr>generate = (\<lambda>call. Inr 0), sr = 24000, to_numpy = Inr,
      torchaudio_save = (\<lambda>audio rate. Inr [82, 73, 70, 70]),
      SUPPORTED_LANGUAGES = [''es'', ''en''], device = ''cpu'',
      str_other = (\<lambda>v. type_name v)\<rparr>"

definition failing_env :: "nat env" where
  "failing_env = stub_env\<lparr>generate := (\<lambda>call. Inl (Exc RuntimeError ''CUDA out of memory''))\<rparr>"

definition idle :: world where
  "idle = \<lparr>files = [], undeletable = {}, unwritable = {}, logs = [], calls = []\<rparr>"

section \<open>The session: \<^verbatim>\<open>handle_client\<close>\<close>

text \<open>
  An incoming message is represented by what \<^verbatim>\<open>json.loads\<close> makes of it: the decoded
  value, or the exception it raises. That is \<^verbatim>\<open>JSONDecodeError\<close> for a text that breaks
  the JSON grammar, but also \<^verbatim>\<open>RecursionError\<close> for a text nested too deeply (a hundred
  thousand opening brackets), \<^verbatim>\<open>UnicodeDecodeError\<close> for a binary frame that is not UTF-8,
  and \<^verbatim>\<open>ValueError\<close> for an integer of more than 4300 digits. An outgoing message is the
  value given to \<^verbatim>\<open>json.dumps\<close>. The socket records what was sent; \<open>credit\<close> is the
  number of messages the transport still takes before the peer is gone, after which
  \<^verbatim>\<open>websocket.send\<close> raises \<^verbatim>\<open>ConnectionClosed\<close>. The list of incoming messages ends where
  the client closes the connection.
\<close>

datatype frame = Undecodable exc | Parsed json

record socket =
  peer :: string
  outbox :: "json list"
  credit :: nat

definition send :: "json \<Rightarrow> socket \<Rightarrow> exc option \<times> socket" where
  "send message s =
     (if credit s = 0 then (Some (Exc ConnectionClosed ''no close frame received or sent''), s)
      else (None, s\<lparr>outbox := outbox s @ [message], credit := credit s - 1\<rparr>))"

definition json_loads :: "frame \<Rightarrow> exc + json" where
  "json_loads message =
     (case message of Undecodable e \<Rightarrow> Inl e | Parsed data \<Rightarrow> Inr data)"

text \<open>Lines 215-223.\<close>

definition welcome_msg :: "'a env \<Rightarrow> json" where
  "welcome_msg E =
     JObj [(''type'', JStr ''server_info''),
           (''data'', JObj [(''message'', JStr ''Chatterbox TTS WebSocket Server''),
                            (''supported_languages'', JArr (map JStr (SUPPORTED_LANGUAGES E))),
                            (''default_language'', JStr ''es''),
                            (''device'', JStr (device E))])]"

definition pong_response :: json where
  "pong_response =
     JObj [(''type'', JStr ''pong''), (''data'', JObj [(''message'', JStr ''Server is alive'')])]"

definition error_response :: "string \<Rightarrow> json" where
  "error_response message =
     JObj [(''type'', JStr ''error''), (''data'', JObj [(''message'', JStr message)])]"

text \<open>Lines 229-252, the body of the inner \<^verbatim>\<open>try\<close>. The result is the exception that
  leaves the body, if any, with the state reached.\<close>

definition dispatch :: "'a env \<Rightarrow> frame \<Rightarrow> world \<Rightarrow> socket \<Rightarrow> exc option \<times> world \<times> socket" where
  "dispatch E message w s =
     (case json_loads message of
        Inl e \<Rightarrow> (Some e, w, s)
      | Inr data \<Rightarrow>
          (case py_get data ''type'' JNull of
             Inl e \<Rightarrow> (Some e, w, s)
           | Inr msg_type \<Rightarrow>
               if msg_type = JStr ''tts_request'' then
                 (case py_get data ''data'' (JObj []) of
                    Inl e \<Rightarrow> (Some e, w, s)
                  | Inr request \<Rightarrow>
                      (case process_tts_request E request w of
                         (Inl e, w') \<Rightarrow> (Some e, w', s)
                       | (Inr response, w') \<Rightarrow>
                           (case send response s of (r, s') \<Rightarrow> (r, w', s'))))
               else if msg_type = JStr ''ping'' then
                 (case send pong_response s of (r, s') \<Rightarrow> (r, w, s'))
               else
                 (case py_get data ''type'' (JStr ''unknown'') of
                    Inl e \<Rightarrow> (Some e, w, s)
                  | Inr shown \<Rightarrow>
                      (case send (error_response (''Unknown message type: '' @ py_str E shown)) s of
                         (r, s') \<Rightarrow> (r, w, s')))))"

text \<open>Lines 227-271: the inner \<^verbatim>\<open>try\<close> with its two \<^verbatim>\<open>except\<close> clauses. An exception of
  \<^verbatim>\<open>websocket.send\<close> inside a clause leaves the statement.\<close>

definition handle_message ::
    "'a env \<Rightarrow> frame \<Rightarrow> world \<Rightarrow> socket \<Rightarrow> exc option \<times> world \<times> socket" where
  "handle_message E message w s =
     (case dispatch E message w s of
        (None, w', s') \<Rightarrow> (None, w', s')
      | (Some e, w', s') \<Rightarrow>
          if kind_of e = JSONDecodeError then
            (case send (error_response ''Invalid JSON format'') s' of (r, s'') \<Rightarrow> (r, w', s''))
          else
            (case send (error_response (''Internal server error: '' @ str_exc e)) s' of
               (r, s'') \<Rightarrow> (r, log_to (LogError (''Error handling message: '' @ str_exc e)) w', s'')))"

text \<open>Line 226, \<^verbatim>\<open>async for message in websocket\<close>: an exception ends the loop.\<close>

fun message_loop ::
    "'a env \<Rightarrow> frame list \<Rightarrow> world \<Rightarrow> socket \<Rightarrow> exc option \<times> world \<times> socket" where
  "message_loop E [] w s = (None, w, s)"
| "message_loop E (message # rest) w s =
     (case handle_message E message w s of
        (Some e, w', s') \<Rightarrow> (Some e, w', s')
      | (None, w', s') \<Rightarrow> message_loop E rest w' s')"

text \<open>Lines 273-277, the outer \<^verbatim>\<open>except\<close> clauses: they log and the handler returns.\<close>

definition client_gone :: "exc option \<Rightarrow> socket \<Rightarrow> world \<Rightarrow> world" where
  "client_gone r s w =
     (case r of
        None \<Rightarrow> w
      | Some e \<Rightarrow>
          if kind_of e = ConnectionClosed then log_to (LogInfo (''Client disconnected: '' @ peer s)) w
          else log_to (LogTraceback e) (log_to (LogError (''Error in client handler: '' @ str_exc e)) w))"

text \<open>Lines 208-277: log the connection, send the welcome message, then serve the
  messages. The result is the state when the handler returns.\<close>

definition handle_client :: "'a env \<Rightarrow> frame list \<Rightarrow> world \<Rightarrow> socket \<Rightarrow> world \<times> socket" where
  "handle_client E messages w s =
     (let w0 = log_to (LogInfo (''Client connected: '' @ peer s)) w
      in case send (welcome_msg E) s of
           (Some e, s1) \<Rightarrow> (client_gone (Some e) s1 w0, s1)
         | (None, s1) \<Rightarrow>
             (case message_loop E messages w0 s1 of
                (r, w', s') \<Rightarrow> (client_gone r s' w', s')))"

text \<open>The \<^verbatim>\<open>type\<close> tag of a message, and a socket on which nothing was sent yet.\<close>

definition message_type :: "json \<Rightarrow> json option" where
  "message_type m = (case m of JObj kvs \<Rightarrow> map_of kvs ''type'' | _ \<Rightarrow> None)"

definition sent :: "json \<Rightarrow> socket \<Rightarrow> socket" where
  "sent message s = s\<lparr>outbox := outbox s @ [message], credit := credit s - 1\<rparr>"

definition fresh_socket :: "nat \<Rightarrow> socket" where
  "fresh_socket n = \<lparr>peer = ''127.0.0.1:50000'', outbox = [], credit = n\<rparr>"

text \<open>The messages the loop sends: a \<^verbatim>\<open>tts_response\<close>, a \<^verbatim>\<open>pong\<close> or an \<^verbatim>\<open>error\<close>.\<close>

definition is_reply :: "json \<Rightarrow> bool" where
  "is_reply m =
     (message_type m = Some (JStr ''tts_response'') \<or> message_type m = Some (JStr ''pong'')
      \<or> message_type m = Some (JStr ''error''))"

definition is_object :: "json \<Rightarrow> bool" where
  "is_object v = (case v of JObj kvs \<Rightarrow> True | _ \<Rightarrow> False)"

text \<open>A field of the \<^verbatim>\<open>data\<close> object of a message.\<close>

definition data_field :: "string \<Rightarrow> json \<Rightarrow> json option" where
  "data_field k m =
     (case m of
        JObj kvs \<Rightarrow> (case map_of kvs ''data'' of Some (JObj d) \<Rightarrow> map_of d k | _ \<Rightarrow> None)
      | _ \<Rightarrow> None)"

section \<open>Properties\<close>

subsection \<open>Validation of the configuration\<close>

lemma check_range_language: "check_range ''language_id'' config = Inr ()"
  by (simp add: check_range_def arm_def)

lemma check_range_all:
  "\<forall>(k, lo, hi, msg) \<in> set ranges. \<forall>v. map_of kvs k = Some v \<longrightarrow>
     check_range k (JObj kvs) =
       bnd (between lo v hi) (\<lambda>ok. if ok then Inr () else Inl (Exc ValueError msg))"
  by (simp add: ranges_def check_range_def arm_def bnd_def split: sum.splits)

lemma check_range_obj:
  assumes "(k, lo, hi, msg) \<in> set ranges" and "map_of kvs k = Some v"
  shows "check_range k (JObj kvs) =
     bnd (between lo v hi) (\<lambda>ok. if ok then Inr () else Inl (Exc ValueError msg))"
  using bspec[OF check_range_all assms(1), of kvs] assms(2) by simp


lemma loop_step_range:
  assumes "(k, lo, hi, msg) \<in> set ranges"
  shows "validate_loop (JObj kvs) (k # ks) d =
     (case map_of kvs k of
        None \<Rightarrow> validate_loop (JObj kvs) ks d
      | Some v \<Rightarrow> bnd (between lo v hi) (\<lambda>ok.
          if ok then validate_loop (JObj kvs) ks (AList.update k v d)
          else Inl (Exc ValueError msg)))"
proof (cases "map_of kvs k")
  case None
  then show ?thesis by (simp add: bnd_def)
next
  case (Some v)
  show ?thesis
    by (simp add: Some check_range_obj[OF assms Some] bnd_def split: sum.splits)
qed

lemma loop_step_language:
  "validate_loop (JObj kvs) (''language_id'' # ks) d =
     (case map_of kvs ''language_id'' of
        None \<Rightarrow> validate_loop (JObj kvs) ks d
      | Some v \<Rightarrow> validate_loop (JObj kvs) ks (AList.update ''language_id'' v d))"
  by (cases "map_of kvs ''language_id''") (simp_all add: check_range_language bnd_def)


lemma loop_ranges_Inr:
  "set rs \<subseteq> set ranges \<Longrightarrow>
   (validate_loop (JObj kvs) (map fst rs) d = Inr d') \<longleftrightarrow>
   ((\<forall>r\<in>set rs. field_ok kvs r) \<and> d' = fold (keep kvs) (map fst rs) d)"
proof (induction rs arbitrary: d)
  case Nil
  then show ?case by auto
next
  case (Cons r rs)
  obtain k lo hi msg where r: "r = (k, lo, hi, msg)" by (cases r) auto
  from Cons.prems have mem: "(k, lo, hi, msg) \<in> set ranges" and sub: "set rs \<subseteq> set ranges"
    by (simp_all add: r)
  note IH = Cons.IH[OF sub]
  have step: "validate_loop (JObj kvs) (map fst (r # rs)) d =
     (case map_of kvs k of
        None \<Rightarrow> validate_loop (JObj kvs) (map fst rs) d
      | Some v \<Rightarrow> bnd (between lo v hi) (\<lambda>ok.
          if ok then validate_loop (JObj kvs) (map fst rs) (AList.update k v d)
          else Inl (Exc ValueError msg)))"
    using loop_step_range[OF mem, of kvs "map fst rs" d] by (simp only: r list.map fst_conv)
  have all: "(\<forall>x\<in>set (r # rs). field_ok kvs x) \<longleftrightarrow> field_ok kvs r \<and> (\<forall>x\<in>set rs. field_ok kvs x)"
    by simp
  have fld: "fold (keep kvs) (map fst (r # rs)) d = fold (keep kvs) (map fst rs) (keep kvs k d)"
    by (simp add: r)
  show ?case
  proof (cases "map_of kvs k")
    case None
    have "field_ok kvs r" by (simp add: field_ok_def r None)
    moreover have "keep kvs k d = d" by (simp add: keep_def None)
    ultimately show ?thesis
      unfolding step all fld by (simp add: None IH)
  next
    case (Some v)
    have kp: "keep kvs k d = AList.update k v d" by (simp add: keep_def Some)
    show ?thesis
    proof (cases "between lo v hi")
      case (Inl e)
      then have "\<not> field_ok kvs r" by (simp add: field_ok_def r Some)
      then show ?thesis
        unfolding step all fld by (simp add: Some Inl bnd_def)
    next
      case (Inr ok)
      show ?thesis
      proof (cases ok)
        case True
        then have "field_ok kvs r" using Inr by (simp add: field_ok_def r Some)
        then show ?thesis
          unfolding step all fld kp using True Inr by (simp add: Some bnd_def IH)
      next
        case False
        then have "\<not> field_ok kvs r" using Inr by (simp add: field_ok_def r Some)
        then show ?thesis
          unfolding step all fld using False Inr by (simp add: Some bnd_def)
      qed
    qed
  qed
qed

lemma update_middle:
  "k \<notin> fst ` set p \<Longrightarrow> AList.update k v (p @ (k, x) # d) = p @ (k, v) # d"
  by (induction p) auto

lemma keep_middle:
  "k \<notin> fst ` set p \<Longrightarrow>
   keep kvs k (p @ (k, x) # d) = p @ (k, case map_of kvs k of None \<Rightarrow> x | Some v \<Rightarrow> v) # d"
  by (simp add: keep_def update_middle split: option.splits)

lemma fold_keep_overlay_gen:
  "distinct (map fst d) \<Longrightarrow> fst ` set p \<inter> fst ` set d = {} \<Longrightarrow>
   fold (keep kvs) (map fst d) (p @ d) = p @ overlay kvs d"
proof (induction d arbitrary: p)
  case Nil
  then show ?case by (simp add: overlay_def)
next
  case (Cons a d)
  obtain k x where a: "a = (k, x)" by (cases a) auto
  let ?x' = "case map_of kvs k of None \<Rightarrow> x | Some v \<Rightarrow> v"
  from Cons.prems have kp: "k \<notin> fst ` set p" and dist: "distinct (map fst d)"
    and kd: "k \<notin> fst ` set d" and disj: "fst ` set p \<inter> fst ` set d = {}"
    by (auto simp: a)
  have "fst ` set (p @ [(k, ?x')]) \<inter> fst ` set d = {}"
    using kd disj by auto
  from Cons.IH[OF dist this]
  have "fold (keep kvs) (map fst d) ((p @ [(k, ?x')]) @ d) = (p @ [(k, ?x')]) @ overlay kvs d" .
  then show ?case
    by (simp add: a keep_middle[OF kp] overlay_def)
qed

lemma fold_keep_overlay:
  "distinct (map fst d) \<Longrightarrow> fold (keep kvs) (map fst d) d = overlay kvs d"
  using fold_keep_overlay_gen[of d "[]" kvs] by simp


lemma defaults_keys: "map fst defaults = ''language_id'' # map fst ranges"
  by (simp add: defaults_def ranges_def)

lemma defaults_distinct: "distinct (map fst defaults)"
  by (simp add: defaults_def)

lemma loop_all_Inr:
  assumes keys: "map fst d0 = map fst defaults"
  shows "(validate_loop (JObj kvs) (map fst d0) d0 = Inr d) \<longleftrightarrow>
         ((\<forall>r\<in>set ranges. field_ok kvs r) \<and> d = overlay kvs d0)"
proof -
  have ov: "overlay kvs d0 = fold (keep kvs) (map fst ranges) (keep kvs ''language_id'' d0)"
    using fold_keep_overlay[of d0 kvs] defaults_distinct by (simp add: keys defaults_keys)
  have "validate_loop (JObj kvs) (map fst d0) d0 =
        validate_loop (JObj kvs) (map fst ranges) (keep kvs ''language_id'' d0)"
    unfolding keys defaults_keys loop_step_language keep_def
    by (simp split: option.splits)
  then show ?thesis
    using loop_ranges_Inr[of ranges kvs "keep kvs ''language_id'' d0" d] by (simp add: ov)
qed

lemma validate_language_obj:
  "validate_language langs (JObj kvs) d =
     (case map_of kvs ''language_id'' of
        None \<Rightarrow> Inr d
      | Some v \<Rightarrow> bnd (py_lower v) (\<lambda>lang.
          if lang \<notin> set langs
          then Inl (Exc ValueError (''Unsupported language: '' @ lang
                      @ ''. Supported languages: '' @ repr_list langs))
          else Inr (AList.update ''language_id'' (JStr lang) d)))"
  by (simp add: validate_language_def bnd_def split: option.splits)

lemma overlay_language:
  "map_of kvs ''language_id'' = Some v \<Longrightarrow>
   overlay kvs (AList.update ''language_id'' w defaults) = overlay kvs defaults"
  by (simp add: overlay_def defaults_def)

lemma keys_language: "map fst (AList.update ''language_id'' w defaults) = map fst defaults"
  by (simp add: defaults_def)

lemma validate_config_Inr_iff:
  "(validate_config langs (JObj kvs) = Inr d) \<longleftrightarrow>
   (language_ok langs kvs \<and> (\<forall>r\<in>set ranges. field_ok kvs r) \<and> d = overlay kvs defaults)"
proof (cases "map_of kvs ''language_id''")
  case None
  then show ?thesis
    by (simp add: validate_config_def validate_language_obj bnd_def language_ok_def loop_all_Inr)
next
  case (Some v)
  show ?thesis
  proof (cases v)
    case (JStr s)
    show ?thesis
    proof (cases "lower s \<in> set langs")
      case True
      have "validate_config langs (JObj kvs) =
            validate_loop (JObj kvs) (map fst (AList.update ''language_id'' (JStr (lower s)) defaults))
              (AList.update ''language_id'' (JStr (lower s)) defaults)"
        by (simp add: validate_config_def validate_language_obj bnd_def Some JStr True)
      then show ?thesis
        using True
        by (simp add: loop_all_Inr[OF keys_language] overlay_language[OF Some] language_ok_def Some JStr)
    next
      case False
      then show ?thesis
        by (simp add: validate_config_def validate_language_obj bnd_def Some JStr language_ok_def)
    qed
  qed (simp_all add: validate_config_def validate_language_obj bnd_def Some language_ok_def)
qed

lemma validate_config_unsupported:
  "map_of kvs ''language_id'' = Some (JStr s) \<Longrightarrow> lower s \<notin> set langs \<Longrightarrow>
   validate_config langs (JObj kvs) =
     Inl (Exc ValueError (''Unsupported language: '' @ lower s
            @ ''. Supported languages: '' @ repr_list langs))"
  by (simp add: validate_config_def validate_language_obj bnd_def)

lemma occurs_in_self: "occurs_in p (p @ b)"
proof (cases "p @ b")
  case Nil
  then show ?thesis by simp
next
  case (Cons c cs)
  have "prefix p (p @ b)" by simp
  then show ?thesis by (simp add: Cons)
qed

lemma occurs_in_middle: "occurs_in p (a @ p @ b)"
  by (induction a) (simp_all add: occurs_in_self)

lemma join_repr_has:
  "l \<in> set ks \<Longrightarrow> \<exists>a b. join_repr ks = a @ quoted l @ b"
proof (induction ks rule: join_repr.induct)
  case 1
  then show ?case by simp
next
  case (2 k)
  then have "join_repr [k] = [] @ quoted l @ []" by simp
  then show ?case by blast
next
  case (3 k k' ks)
  show ?case
  proof (cases "l = k")
    case True
    then have "join_repr (k # k' # ks) = [] @ quoted l @ ('', '' @ join_repr (k' # ks))" by simp
    then show ?thesis by blast
  next
    case False
    with 3 obtain a b where "join_repr (k' # ks) = a @ quoted l @ b" by auto
    then have "join_repr (k # k' # ks) = (quoted k @ '', '' @ a) @ quoted l @ b" by simp
    then show ?thesis by blast
  qed
qed

lemma message_lists_language:
  assumes "l \<in> set langs"
  shows "occurs_in (quoted l) (pre @ repr_list langs)"
proof -
  from join_repr_has[OF assms] obtain a b where "join_repr langs = a @ quoted l @ b" by blast
  then have "pre @ repr_list langs = (pre @ ''['' @ a) @ quoted l @ (b @ '']'')"
    by (simp add: repr_list_def)
  then show ?thesis by (simp only: occurs_in_middle)
qed

lemma loop_ranges_Inl:
  "set rs \<subseteq> set ranges \<Longrightarrow> validate_loop (JObj kvs) (map fst rs) d = Inl e \<Longrightarrow>
   \<exists>r\<in>set rs. rejected_by kvs e r"
proof (induction rs arbitrary: d)
  case Nil
  then show ?case by simp
next
  case (Cons r rs)
  obtain k lo hi msg where r: "r = (k, lo, hi, msg)" by (cases r) auto
  from Cons.prems have mem: "(k, lo, hi, msg) \<in> set ranges" and sub: "set rs \<subseteq> set ranges"
    by (simp_all add: r)
  have step: "validate_loop (JObj kvs) (map fst (r # rs)) d =
     (case map_of kvs k of
        None \<Rightarrow> validate_loop (JObj kvs) (map fst rs) d
      | Some v \<Rightarrow> bnd (between lo v hi) (\<lambda>ok.
          if ok then validate_loop (JObj kvs) (map fst rs) (AList.update k v d)
          else Inl (Exc ValueError msg)))"
    using loop_step_range[OF mem, of kvs "map fst rs" d] by (simp only: r list.map fst_conv)
  show ?case
  proof (cases "map_of kvs k")
    case None
    with Cons.prems(2) have "validate_loop (JObj kvs) (map fst rs) d = Inl e"
      unfolding step by simp
    from Cons.IH[OF sub this] show ?thesis by auto
  next
    case (Some v)
    show ?thesis
    proof (cases "between lo v hi")
      case (Inl e')
      with Cons.prems(2) have "e' = e" unfolding step by (simp add: Some bnd_def)
      then have "rejected_by kvs e r" by (simp add: rejected_by_def r Some Inl)
      then show ?thesis by simp
    next
      case (Inr ok)
      show ?thesis
      proof (cases ok)
        case True
        with Cons.prems(2) Inr
        have "validate_loop (JObj kvs) (map fst rs) (AList.update k v d) = Inl e"
          unfolding step by (simp add: Some bnd_def)
        from Cons.IH[OF sub this] show ?thesis by auto
      next
        case False
        with Cons.prems(2) Inr have "e = Exc ValueError msg"
          unfolding step by (simp add: Some bnd_def)
        then have "rejected_by kvs e r" using False Inr by (simp add: rejected_by_def r Some)
        then show ?thesis by simp
      qed
    qed
  qed
qed

lemma validate_config_Inl:
  assumes "validate_config langs (JObj kvs) = Inl e" and "language_ok langs kvs"
  shows "\<exists>r\<in>set ranges. rejected_by kvs e r"
proof -
  obtain d0 where d0: "validate_language langs (JObj kvs) defaults = Inr d0"
    and keys: "map fst d0 = map fst defaults"
    using assms(2)
    by (auto simp: validate_language_obj language_ok_def keys_language bnd_def
             split: option.splits json.splits)
  from assms(1) have "validate_loop (JObj kvs) (map fst d0) d0 = Inl e"
    by (simp add: validate_config_def d0 bnd_def)
  then have "validate_loop (JObj kvs) (map fst ranges) (keep kvs ''language_id'' d0) = Inl e"
    unfolding keys defaults_keys loop_step_language keep_def
    by (simp split: option.splits)
  from loop_ranges_Inl[OF subset_refl this] show ?thesis .
qed

lemma ranges_inclusive:
  "\<forall>(k, lo, hi, msg) \<in> set ranges. \<forall>x.
     between lo (JFloat x) hi = Inr (lo \<le> x \<and> x \<le> hi) \<and> lo \<le> hi"
  by (simp add: ranges_def)

text \<open>
  C3 (as amended). For a client-supplied config mapping \<open>kvs\<close>, \<^verbatim>\<open>_validate_config\<close> accepts
  exactly when the language is acceptable and every supplied numeric field lies in its
  inclusive range \<open>lo \<le> x \<le> hi\<close> (so a value equal to either bound is accepted); the
  accepted result has all seven keys, each holding the supplied value where one was
  given and the default of lines 96-104 otherwise. A rejection that is not about the
  language is raised by the range check of a supplied field, and for a number outside
  the range it is the \<^verbatim>\<open>ValueError\<close> with that field's fixed text, which names the field
  and both bounds; the offending value is not part of the text.
\<close>

theorem validate_config_defaults_and_ranges:
  "((validate_config langs (JObj kvs) = Inr d) \<longleftrightarrow>
      (language_ok langs kvs \<and> (\<forall>r\<in>set ranges. field_ok kvs r) \<and> d = overlay kvs defaults))
   \<and> (\<forall>(k, lo, hi, msg) \<in> set ranges. lo \<le> hi \<and>
         (\<forall>x. map_of kvs k = Some (JFloat x) \<longrightarrow>
              (field_ok kvs (k, lo, hi, msg) \<longleftrightarrow> lo \<le> x \<and> x \<le> hi)))
   \<and> (\<forall>e. validate_config langs (JObj kvs) = Inl e \<longrightarrow> language_ok langs kvs \<longrightarrow>
         (\<exists>r\<in>set ranges. rejected_by kvs e r))"
proof (intro conjI)
  show "(validate_config langs (JObj kvs) = Inr d) \<longleftrightarrow>
      (language_ok langs kvs \<and> (\<forall>r\<in>set ranges. field_ok kvs r) \<and> d = overlay kvs defaults)"
    by (rule validate_config_Inr_iff)
next
  show "\<forall>(k, lo, hi, msg) \<in> set ranges. lo \<le> hi \<and>
         (\<forall>x. map_of kvs k = Some (JFloat x) \<longrightarrow>
              (field_ok kvs (k, lo, hi, msg) \<longleftrightarrow> lo \<le> x \<and> x \<le> hi))"
    using ranges_inclusive by (fastforce simp: field_ok_def)
next
  show "\<forall>e. validate_config langs (JObj kvs) = Inl e \<longrightarrow> language_ok langs kvs \<longrightarrow>
         (\<exists>r\<in>set ranges. rejected_by kvs e r)"
    using validate_config_Inl by blast
qed

theorem validate_config_defaults_and_ranges_witness:
  "validate_config [''es''] (JObj []) =
     Inr [(''language_id'', JStr ''es''), (''exaggeration'', JFloat (1/2)),
          (''temperature'', JFloat (4/5)), (''cfg_weight'', JFloat (1/2)),
          (''repetition_penalty'', JFloat 2), (''min_p'', JFloat (1/20)),
          (''top_p'', JFloat 1)]
   \<and> validate_config [''es''] (JObj [(''exaggeration'', JFloat 2)]) =
     Inr [(''language_id'', JStr ''es''), (''exaggeration'', JFloat 2),
          (''temperature'', JFloat (4/5)), (''cfg_weight'', JFloat (1/2)),
          (''repetition_penalty'', JFloat 2), (''min_p'', JFloat (1/20)),
          (''top_p'', JFloat 1)]
   \<and> validate_config [''es''] (JObj [(''exaggeration'', JFloat (5/2))]) =
     Inl (Exc ValueError ''Exaggeration must be between 0.25 and 2.0'')"
proof (intro conjI)
  show "validate_config [''es''] (JObj []) =
     Inr [(''language_id'', JStr ''es''), (''exaggeration'', JFloat (1/2)),
          (''temperature'', JFloat (4/5)), (''cfg_weight'', JFloat (1/2)),
          (''repetition_penalty'', JFloat 2), (''min_p'', JFloat (1/20)),
          (''top_p'', JFloat 1)]"
    using validate_config_defaults_and_ranges[of "[''es'']" "[]" "overlay [] defaults"]
    by (simp add: language_ok_def field_ok_def ranges_def overlay_def defaults_def)
next
  show "validate_config [''es''] (JObj [(''exaggeration'', JFloat 2)]) =
     Inr [(''language_id'', JStr ''es''), (''exaggeration'', JFloat 2),
          (''temperature'', JFloat (4/5)), (''cfg_weight'', JFloat (1/2)),
          (''repetition_penalty'', JFloat 2), (''min_p'', JFloat (1/20)),
          (''top_p'', JFloat 1)]"
    using validate_config_defaults_and_ranges[of "[''es'']" "[(''exaggeration'', JFloat 2)]"
            "overlay [(''exaggeration'', JFloat 2)] defaults"]
    by (simp add: language_ok_def field_ok_def ranges_def overlay_def defaults_def)
next
  let ?kvs = "[(''exaggeration'', JFloat (5/2))]"
  note inst = validate_config_defaults_and_ranges[of "[''es'']" ?kvs]
  have no: "\<And>d. validate_config [''es''] (JObj ?kvs) \<noteq> Inr d"
    using inst by (simp add: field_ok_def ranges_def)
  then obtain e where e: "validate_config [''es''] (JObj ?kvs) = Inl e"
    by (cases "validate_config [''es''] (JObj ?kvs)") auto
  have "language_ok [''es''] ?kvs" by (simp add: language_ok_def)
  with inst e have "\<exists>r\<in>set ranges. rejected_by ?kvs e r" by blast
  then have "e = Exc ValueError ''Exaggeration must be between 0.25 and 2.0''"
    by (simp add: ranges_def rejected_by_def)
  with e show "validate_config [''es''] (JObj ?kvs) =
     Inl (Exc ValueError ''Exaggeration must be between 0.25 and 2.0'')" by simp
qed

text \<open>
  C3 as stated fails on the last clause: the error raised for an out-of-range value does
  not name the value. Two different out-of-range values of \<^verbatim>\<open>exaggeration\<close>, 2.5 and 3.0,
  raise the same text, and \<^verbatim>\<open>2.5\<close> does not occur in it.
\<close>

theorem range_error_omits_value:
  "validate_config [''es''] (JObj [(''exaggeration'', JFloat (5/2))]) =
     Inl (Exc ValueError ''Exaggeration must be between 0.25 and 2.0'')
   \<and> validate_config [''es''] (JObj [(''exaggeration'', JFloat 3)]) =
     Inl (Exc ValueError ''Exaggeration must be between 0.25 and 2.0'')
   \<and> \<not> occurs_in ''2.5'' ''Exaggeration must be between 0.25 and 2.0''"
  by (simp add: validate_config_def validate_language_def defaults_def bnd_def
                check_range_def arm_def)

text \<open>
  The acceptance side of the language check. For a config whose \<^verbatim>\<open>language_id\<close> is the
  string \<open>s\<close> (and whose other supplied fields are in range), the validator accepts if
  and only if the lower-cased \<open>s\<close> is one of the supported language ids; if it is not,
  the request is rejected, whatever the other fields are, with a \<^verbatim>\<open>ValueError\<close> whose text
  shows the lower-cased id and lists every supported id.
\<close>

theorem language_accepted_iff_supported:
  assumes "map_of kvs ''language_id'' = Some (JStr s)"
  shows "((\<forall>r\<in>set ranges. field_ok kvs r) \<longrightarrow>
            ((\<exists>d. validate_config langs (JObj kvs) = Inr d) \<longleftrightarrow> lower s \<in> set langs))
       \<and> (lower s \<notin> set langs \<longrightarrow>
            validate_config langs (JObj kvs) =
              Inl (Exc ValueError (''Unsupported language: '' @ lower s
                     @ ''. Supported languages: '' @ repr_list langs))
            \<and> (\<forall>l\<in>set langs. occurs_in (quoted l)
                  (''Unsupported language: '' @ lower s
                     @ ''. Supported languages: '' @ repr_list langs)))"
proof (intro conjI impI)
  assume "\<forall>r\<in>set ranges. field_ok kvs r"
  then show "(\<exists>d. validate_config langs (JObj kvs) = Inr d) \<longleftrightarrow> lower s \<in> set langs"
    by (simp add: validate_config_Inr_iff language_ok_def assms)
next
  assume "lower s \<notin> set langs"
  then show "validate_config langs (JObj kvs) =
      Inl (Exc ValueError (''Unsupported language: '' @ lower s
             @ ''. Supported languages: '' @ repr_list langs))"
    by (rule validate_config_unsupported[OF assms])
next
  show "\<forall>l\<in>set langs. occurs_in (quoted l)
          (''Unsupported language: '' @ lower s @ ''. Supported languages: '' @ repr_list langs)"
  proof
    fix l assume "l \<in> set langs"
    from message_lists_language[OF this,
           of "''Unsupported language: '' @ lower s @ ''. Supported languages: ''"]
    show "occurs_in (quoted l)
          (''Unsupported language: '' @ lower s @ ''. Supported languages: '' @ repr_list langs)"
      by simp
  qed
qed

theorem language_accepted_iff_supported_witness:
  "(\<exists>d. validate_config [''es'', ''en''] (JObj [(''language_id'', JStr ''ES'')]) = Inr d)
   \<and> validate_config [''es'', ''en''] (JObj [(''language_id'', JStr ''Xx'')]) =
       Inl (Exc ValueError (''Unsupported language: xx. Supported languages: [''
              @ quoted ''es'' @ '', '' @ quoted ''en'' @ '']''))"
proof -
  have l1: "lower ''ES'' = ''es''" and l2: "lower ''Xx'' = ''xx''"
    by code_simp+
  show ?thesis
    using language_accepted_iff_supported[of "[(''language_id'', JStr ''ES'')]" "''ES''" "[''es'', ''en'']"]
          language_accepted_iff_supported[of "[(''language_id'', JStr ''Xx'')]" "''Xx''" "[''es'', ''en'']"]
    by (simp add: field_ok_def ranges_def l1 l2 repr_list_def)
qed

text \<open>
  The returned value. The language check stores the lower-cased id at line 111, but the
  loop of lines 114-128 then runs over \<^verbatim>\<open>language_id\<close> as over every other key and
  stores \<^verbatim>\<open>config[key]\<close> again at line 128: the accepted config carries the id as the
  client wrote it.
\<close>

lemma language_id_returned_as_supplied:
  "map_of kvs ''language_id'' = Some (JStr s) \<Longrightarrow> validate_config langs (JObj kvs) = Inr d \<Longrightarrow>
   map_of d ''language_id'' = Some (JStr s)"
  by (simp add: validate_config_Inr_iff overlay_def defaults_def)

subsection \<open>The base64 round trip\<close>

lemma index_of_nth:
  "distinct xs \<Longrightarrow> i < length xs \<Longrightarrow> index_of (xs ! i) xs = Some i"
proof (induction xs arbitrary: i)
  case Nil
  then show ?case by simp
next
  case (Cons x xs)
  show ?case
  proof (cases i)
    case 0
    then show ?thesis by simp
  next
    case (Suc j)
    with Cons.prems have j: "j < length xs" and "distinct xs" and "xs ! j \<noteq> x"
      by auto
    with Cons.IH[of j] show ?thesis by (simp add: Suc)
  qed
qed

lemma alphabet_length: "length alphabet = 64"
  by (simp add: alphabet_def)

lemma alphabet_distinct: "distinct alphabet"
  by (simp add: alphabet_def)

lemma alphabet_no_pad: "CHR ''='' \<notin> set alphabet"
  by (simp add: alphabet_def)

lemma alphabet_ascii: "list_all (\<lambda>c. (of_char c :: nat) < 128) alphabet"
  by (simp add: alphabet_def)

lemma a2b_b2a: "i < 64 \<Longrightarrow> a2b (b2a i) = Some i"
  by (simp add: a2b_def b2a_def index_of_nth alphabet_distinct alphabet_length)

lemma b2a_not_pad: "i < 64 \<Longrightarrow> b2a i \<noteq> CHR ''=''"
proof
  assume "i < 64" and "b2a i = CHR ''=''"
  then have "CHR ''='' \<in> set alphabet"
    using nth_mem[of i alphabet] by (simp add: b2a_def alphabet_length)
  with alphabet_no_pad show False by simp
qed

lemma b2a_ascii: "i < 64 \<Longrightarrow> (of_char (b2a i) :: nat) < 128"
  using alphabet_ascii by (simp add: b2a_def list_all_length alphabet_length)

lemma a2b_base64_data:
  "i < 64 \<Longrightarrow>
   a2b_base64 q l p out (b2a i # cs) =
     (if q = 0 then a2b_base64 1 i 0 out cs
      else if q = 1 then a2b_base64 2 (i mod 16) 0 (out @ [of_nat (l * 4 + i div 16)]) cs
      else if q = 2 then a2b_base64 3 (i mod 4) 0 (out @ [of_nat (l * 16 + i div 4)]) cs
      else a2b_base64 0 0 0 (out @ [of_nat (l * 64 + i)]) cs)"
  by (simp add: a2b_b2a b2a_not_pad)

lemma sextets:
  fixes x y z :: nat
  assumes "x < 256" "y < 256" "z < 256"
  shows "x div 4 < 64" "x mod 4 * 16 + y div 16 < 64" "y mod 16 * 4 + z div 64 < 64"
    "z mod 64 < 64" "x mod 4 * 16 < 64" "y mod 16 * 4 < 64"
  using assms by auto

lemma regroup:
  fixes x y z :: nat
  assumes "y < 256" "z < 256"
  shows "x div 4 * 4 + (x mod 4 * 16 + y div 16) div 16 = x"
    and "(x mod 4 * 16 + y div 16) mod 16 = y div 16"
    and "y div 16 * 16 + (y mod 16 * 4 + z div 64) div 4 = y"
    and "(y mod 16 * 4 + z div 64) mod 4 = z div 64"
    and "z div 64 * 64 + z mod 64 = z"
    and "x div 4 * 4 + (x mod 4 * 16) div 16 = x"
    and "(x mod 4 * 16) mod 16 = 0"
    and "y div 16 * 16 + (y mod 16 * 4) div 4 = y"
  using assms by auto

lemma a2b_base64_quad:
  "s1 < 64 \<Longrightarrow> s2 < 64 \<Longrightarrow> s3 < 64 \<Longrightarrow> s4 < 64 \<Longrightarrow>
   a2b_base64 0 l p out (b2a s1 # b2a s2 # b2a s3 # b2a s4 # cs) =
   a2b_base64 0 0 0
     (out @ [of_nat (s1 * 4 + s2 div 16), of_nat (s2 mod 16 * 16 + s3 div 4),
             of_nat (s3 mod 4 * 64 + s4)]) cs"
  by (simp add: a2b_base64_data del: a2b_base64.simps)

lemma a2b_base64_triple:
  "s1 < 64 \<Longrightarrow> s2 < 64 \<Longrightarrow> s3 < 64 \<Longrightarrow>
   a2b_base64 0 l p out [b2a s1, b2a s2, b2a s3, CHR ''=''] =
   Inr (out @ [of_nat (s1 * 4 + s2 div 16), of_nat (s2 mod 16 * 16 + s3 div 4)])"
  by (simp add: a2b_base64_data del: a2b_base64.simps) simp

lemma a2b_base64_pair:
  "s1 < 64 \<Longrightarrow> s2 < 64 \<Longrightarrow>
   a2b_base64 0 l p out [b2a s1, b2a s2, CHR ''='', CHR ''=''] =
   Inr (out @ [of_nat (s1 * 4 + s2 div 16)])"
  by (simp add: a2b_base64_data del: a2b_base64.simps) simp

lemma unat_byte: "unat (a :: byte) < 256"
  using unsigned_less[of a, where ?'a = nat] by simp

lemma byte_of_unat: "x = unat a \<Longrightarrow> (of_nat x :: byte) = a"
  by simp

lemma bytes_of_sextets:
  fixes a b c :: byte
  shows "(of_nat (unat a div 4 * 4 + (unat a mod 4 * 16 + unat b div 16) div 16) :: byte) = a"
    and "(of_nat ((unat a mod 4 * 16 + unat b div 16) mod 16 * 16
                  + (unat b mod 16 * 4 + unat c div 64) div 4) :: byte) = b"
    and "(of_nat ((unat b mod 16 * 4 + unat c div 64) mod 4 * 64 + unat c mod 64) :: byte) = c"
    and "(of_nat (unat a div 4 * 4 + (unat a mod 4 * 16) div 16) :: byte) = a"
    and "(of_nat ((unat a mod 4 * 16 + unat b div 16) mod 16 * 16
                  + (unat b mod 16 * 4) div 4) :: byte) = b"
proof -
  note r = regroup[OF unat_byte[of b] unat_byte[of c]]
  show "(of_nat (unat a div 4 * 4 + (unat a mod 4 * 16 + unat b div 16) div 16) :: byte) = a"
    by (rule byte_of_unat) (rule r(1))
  show "(of_nat ((unat a mod 4 * 16 + unat b div 16) mod 16 * 16
                  + (unat b mod 16 * 4 + unat c div 64) div 4) :: byte) = b"
    by (rule byte_of_unat) (simp only: r(2) r(3))
  show "(of_nat ((unat b mod 16 * 4 + unat c div 64) mod 4 * 64 + unat c mod 64) :: byte) = c"
    by (rule byte_of_unat) (simp only: r(4) r(5))
  show "(of_nat (unat a div 4 * 4 + (unat a mod 4 * 16) div 16) :: byte) = a"
    by (rule byte_of_unat) (rule r(6))
  show "(of_nat ((unat a mod 4 * 16 + unat b div 16) mod 16 * 16
                  + (unat b mod 16 * 4) div 4) :: byte) = b"
    by (rule byte_of_unat) (simp only: r(2) r(8))
qed

lemma a2b_base64_b64encode:
  "a2b_base64 0 l p out (b64encode bs) = Inr (out @ bs)"
proof (induction bs arbitrary: l p out rule: b64encode.induct)
  case 1
  show ?case by simp
next
  case (2 a)
  note s = sextets[OF unat_byte[of a] unat_byte[of a] unat_byte[of a]]
  show ?case
    unfolding b64encode.simps a2b_base64_pair[OF s(1) s(5)]
    by (simp only: bytes_of_sextets)
next
  case (3 a b)
  note s = sextets[OF unat_byte[of a] unat_byte[of b] unat_byte[of b]]
  show ?case
    unfolding b64encode.simps a2b_base64_triple[OF s(1) s(2) s(6)]
    by (simp only: bytes_of_sextets)
next
  case (4 a b c rest)
  note s = sextets[OF unat_byte[of a] unat_byte[of b] unat_byte[of c]]
  have "a2b_base64 0 l p out (b64encode (a # b # c # rest)) =
        a2b_base64 0 0 0 (out @ [a, b, c]) (b64encode rest)"
    unfolding b64encode.simps append_Cons append_Nil a2b_base64_quad[OF s(1) s(2) s(3) s(4)]
    by (simp only: bytes_of_sextets)
  then show ?case by (simp add: "4.IH")
qed

lemma b64encode_ascii: "list_all (\<lambda>c. (of_char c :: nat) < 128) (b64encode bs)"
proof (induction bs rule: b64encode.induct)
  case 1
  show ?case by simp
next
  case (2 a)
  show ?case by (simp add: b2a_ascii sextets[OF unat_byte[of a] unat_byte[of a] unat_byte[of a]])
next
  case (3 a b)
  show ?case by (simp add: b2a_ascii sextets[OF unat_byte[of a] unat_byte[of b] unat_byte[of b]])
next
  case (4 a b c rest)
  show ?case
    using 4 by (simp add: b2a_ascii sextets[OF unat_byte[of a] unat_byte[of b] unat_byte[of c]])
qed

text \<open>
  C8. For every byte sequence, decoding the base64 text that encoding produces gives the
  bytes back: \<^verbatim>\<open>b64decode(b64encode(bs)) == bs\<close>, with \<^verbatim>\<open>b64encode\<close> as \<^verbatim>\<open>_encode_audio\<close> calls
  it and \<^verbatim>\<open>b64decode\<close> as \<^verbatim>\<open>_decode_audio\<close> calls it on the received string.
\<close>

theorem b64_round_trip: "b64decode (JStr (b64encode bs)) = Inr bs"
  using a2b_base64_b64encode[of 0 0 "[]" bs] by (simp add: b64decode_def b64encode_ascii)

subsection \<open>The request\<close>

lemma all_dropWhile:
  "(\<forall>c\<in>set (dropWhile P xs). P c) \<longleftrightarrow> (\<forall>c\<in>set xs. P c)"
proof
  assume a: "\<forall>c\<in>set (dropWhile P xs). P c"
  show "\<forall>c\<in>set xs. P c"
  proof (cases "dropWhile P xs")
    case Nil
    then show ?thesis by (simp add: dropWhile_eq_Nil_conv)
  next
    case (Cons y ys)
    then have "\<not> P y" using hd_dropWhile[of P xs] by simp
    moreover have "y \<in> set (dropWhile P xs)" by (simp add: Cons)
    ultimately show ?thesis using a by blast
  qed
next
  assume "\<forall>c\<in>set xs. P c"
  then show "\<forall>c\<in>set (dropWhile P xs). P c"
    by (meson set_dropWhileD)
qed

lemma strip_empty_iff: "strip t = [] \<longleftrightarrow> (\<forall>c\<in>set t. is_space c)"
proof -
  have "strip t = [] \<longleftrightarrow> (\<forall>c\<in>set (rev (dropWhile is_space t)). is_space c)"
    by (simp add: strip_def dropWhile_eq_Nil_conv)
  also have "\<dots> \<longleftrightarrow> (\<forall>c\<in>set t. is_space c)"
    by (simp add: all_dropWhile)
  finally show ?thesis .
qed

lemma tts_text_blank:
  assumes "map_of kvs ''text'' = Some (JStr t)" and "\<forall>c\<in>set t. is_space c"
  shows "tts_text (JObj kvs) w = (Inl (Exc ValueError ''Text cannot be empty''), w)"
  using assms by (simp add: tts_text_def strip_empty_iff)

lemma tts_text_long:
  assumes "map_of kvs ''text'' = Some (JStr t)" and "\<not> (\<forall>c\<in>set t. is_space c)"
    and "500 < length t"
  shows "tts_text (JObj kvs) w =
           (Inr (take 500 t), log_to (LogWarning ''Text truncated to 500 characters'') w)"
proof -
  from assms(2) have "strip t \<noteq> []" by (simp add: strip_empty_iff)
  moreover from assms(3) have "t \<noteq> []" by auto
  ultimately show ?thesis using assms(1,3) by (simp add: tts_text_def)
qed

lemma tts_text_short:
  assumes "map_of kvs ''text'' = Some (JStr t)" and "\<not> (\<forall>c\<in>set t. is_space c)"
    and "length t \<le> 500"
  shows "tts_text (JObj kvs) w = (Inr t, w)"
proof -
  from assms(2) have "strip t \<noteq> []" by (simp add: strip_empty_iff)
  moreover from assms(2) have "t \<noteq> []" by auto
  ultimately show ?thesis using assms(1,3) by (simp add: tts_text_def)
qed

text \<open>
  C4. For a request whose \<^verbatim>\<open>text\<close> is the string \<open>t\<close>: if \<open>t\<close> is empty or consists of
  whitespace only, the request is answered with the error response "Text cannot be
  empty"; if \<open>t\<close> is not blank and longer than 500 characters (501, say), it is not
  rejected: a warning is logged and the request goes on exactly as it does for any
  accepted text, with the first 500 characters of \<open>t\<close> as the text to synthesize.
\<close>

theorem text_blank_rejected_long_truncated:
  assumes "map_of kvs ''text'' = Some (JStr t)"
  shows "((\<forall>c\<in>set t. is_space c) \<longrightarrow>
            process_tts_request E (JObj kvs) w =
              (Inr (tts_response_error ''Text cannot be empty''),
               log_to (LogTraceback (Exc ValueError ''Text cannot be empty''))
                 (log_to (LogError ''Error processing TTS request: Text cannot be empty'') w)))
       \<and> (\<not> (\<forall>c\<in>set t. is_space c) \<and> 500 < length t \<longrightarrow>
            length (take 500 t) = 500
            \<and> process_tts_request E (JObj kvs) w =
                tts_synthesize E (take 500 t) (JObj kvs)
                  (log_to (LogWarning ''Text truncated to 500 characters'') w))
       \<and> (\<not> (\<forall>c\<in>set t. is_space c) \<and> length t \<le> 500 \<longrightarrow>
            process_tts_request E (JObj kvs) w = tts_synthesize E t (JObj kvs) w)"
proof (intro conjI impI)
  assume "\<forall>c\<in>set t. is_space c"
  from tts_text_blank[OF assms this]
  show "process_tts_request E (JObj kvs) w =
              (Inr (tts_response_error ''Text cannot be empty''),
               log_to (LogTraceback (Exc ValueError ''Text cannot be empty''))
                 (log_to (LogError ''Error processing TTS request: Text cannot be empty'') w))"
    by (simp add: process_tts_request_def tts_except_def unlink_reference_def)
next
  assume "\<not> (\<forall>c\<in>set t. is_space c) \<and> 500 < length t"
  then show "length (take 500 t) = 500" by simp
next
  assume "\<not> (\<forall>c\<in>set t. is_space c) \<and> 500 < length t"
  then have "tts_text (JObj kvs) w =
           (Inr (take 500 t), log_to (LogWarning ''Text truncated to 500 characters'') w)"
    using tts_text_long[OF assms] by blast
  then show "process_tts_request E (JObj kvs) w =
                tts_synthesize E (take 500 t) (JObj kvs)
                  (log_to (LogWarning ''Text truncated to 500 characters'') w)"
    by (simp add: process_tts_request_def)
next
  assume "\<not> (\<forall>c\<in>set t. is_space c) \<and> length t \<le> 500"
  then have "tts_text (JObj kvs) w = (Inr t, w)"
    using tts_text_short[OF assms] by blast
  then show "process_tts_request E (JObj kvs) w = tts_synthesize E t (JObj kvs) w"
    by (simp add: process_tts_request_def)
qed


lemma stub_audio: "b64encode [82, 73, 70, 70] = ''UklGRg==''"
  by code_simp

lemma stub_reference: "b64decode (JStr ''SGk='') = Inr [72, 105]"
  by code_simp

lemmas tts_defs =
  tts_synthesize_def tts_config_def tts_reference_def tts_generate_def tts_except_def
  unlink_reference_def encode_audio_def encode_finally_def decode_audio_def unlink_def
  exists_def log_to_def validate_config_def validate_language_def defaults_def bnd_def
  check_range_def arm_def py_str_def tts_response_success_def tts_response_error_def

theorem text_blank_rejected_long_truncated_witness:
  "fst (process_tts_request stub_env (JObj [(''text'', JStr ''   '')]) idle)
     = Inr (tts_response_error ''Text cannot be empty'')
   \<and> fst (process_tts_request stub_env (JObj [(''text'', JStr (replicate 501 (CHR ''a'')))]) idle)
     = Inr (tts_response_success stub_env ''UklGRg=='' (JStr ''es''))
   \<and> map gen_text (calls (snd (process_tts_request stub_env
           (JObj [(''text'', JStr (replicate 501 (CHR ''a'')))]) idle)))
     = [replicate 500 (CHR ''a'')]
   \<and> LogWarning ''Text truncated to 500 characters''
       \<in> set (logs (snd (process_tts_request stub_env
           (JObj [(''text'', JStr (replicate 501 (CHR ''a'')))]) idle)))"
proof -
  have blank: "\<forall>c\<in>set ''   ''. is_space c" by (simp add: is_space_def)
  have long: "\<not> (\<forall>c\<in>set (replicate 501 (CHR ''a'')). is_space c)
              \<and> 500 < length (replicate 501 (CHR ''a''))"
    by (simp add: is_space_def)
  have run: "tts_synthesize stub_env (replicate 500 (CHR ''a''))
          (JObj [(''text'', JStr (replicate 501 (CHR ''a'')))])
          (log_to (LogWarning ''Text truncated to 500 characters'') idle) =
        (Inr (tts_response_success stub_env ''UklGRg=='' (JStr ''es'')),
         \<lparr>files = [], undeletable = {}, unwritable = {},
          logs = [LogWarning ''Text truncated to 500 characters'',
                  LogInfo (''Generating TTS for text: '' @ quoted (replicate 50 (CHR ''a'') @ ''...'')
                           @ '' in language: es'')],
          calls = [\<lparr>gen_text = replicate 500 (CHR ''a''), gen_config = defaults,
                    audio_prompt_path = None\<rparr>]\<rparr>)"
    by (simp add: tts_defs stub_env_def idle_def stub_audio del: b64encode.simps)
  show ?thesis
    using text_blank_rejected_long_truncated[of "[(''text'', JStr ''   '')]" "''   ''" stub_env idle]
      text_blank_rejected_long_truncated[of "[(''text'', JStr (replicate 501 (CHR ''a'')))]"
        "replicate 501 (CHR ''a'')" stub_env idle]
      blank long
    by (simp add: run)
qed

text \<open>
  C1, at a request with a reference audio and a stubbed model that succeeds. When
  \<^verbatim>\<open>os.unlink\<close> works, the answer is the success response. When \<^verbatim>\<open>os.unlink\<close> fails on the
  reference file, line 178 raises inside the \<^verbatim>\<open>try\<close>, the \<^verbatim>\<open>except\<close> clause calls \<^verbatim>\<open>os.unlink\<close>
  again at line 197, and that exception leaves \<^verbatim>\<open>process_tts_request\<close>: the synthesized
  audio is lost, no warning is logged, and the file stays. The failure of the removal
  is not tolerated, unlike in \<^verbatim>\<open>_encode_audio\<close> (\<open>encode_finally\<close>).
\<close>

theorem reference_unlink_failure_changes_outcome:
  "fst (process_tts_request stub_env
          (JObj [(''text'', JStr ''Hola''), (''reference_audio'', JStr ''SGk='')]) idle)
     = Inr (tts_response_success stub_env ''UklGRg=='' (JStr ''es''))
   \<and> process_tts_request stub_env
          (JObj [(''text'', JStr ''Hola''), (''reference_audio'', JStr ''SGk='')])
          (idle\<lparr>undeletable := {0}\<rparr>)
     = (Inl (Exc PermissionError (''[Errno 13] Permission denied: '' @ quoted (path_name 0))),
        \<lparr>files = [(0, [72, 105])], undeletable = {0}, unwritable = {},
         logs = [LogInfo (''Generating TTS for text: '' @ quoted ''Hola...'' @ '' in language: es''),
                 LogError (''Error processing TTS request: [Errno 13] Permission denied: ''
                           @ quoted (path_name 0)),
                 LogTraceback (Exc PermissionError (''[Errno 13] Permission denied: ''
                           @ quoted (path_name 0)))],
         calls = [\<lparr>gen_text = ''Hola'', gen_config = defaults, audio_prompt_path = Some 0\<rparr>]\<rparr>)"
  by (simp add: process_tts_request_def tts_text_def strip_def is_space_def tts_defs
                stub_env_def idle_def stub_audio stub_reference del: b64encode.simps)

text \<open>
  C2, at a request with a reference audio and a model that raises. When \<^verbatim>\<open>os.unlink\<close>
  works, the exception of the model becomes the error response. When \<^verbatim>\<open>os.unlink\<close> fails
  on the reference file, the \<^verbatim>\<open>except\<close> clause itself raises at line 197 and
  \<^verbatim>\<open>process_tts_request\<close> returns no response: an exception passes the boundary.
\<close>

theorem model_failure_with_locked_reference_escapes:
  "fst (process_tts_request failing_env
          (JObj [(''text'', JStr ''Hola''), (''reference_audio'', JStr ''SGk='')]) idle)
     = Inr (tts_response_error ''CUDA out of memory'')
   \<and> fst (process_tts_request failing_env
          (JObj [(''text'', JStr ''Hola''), (''reference_audio'', JStr ''SGk='')])
          (idle\<lparr>undeletable := {0}\<rparr>))
     = Inl (Exc PermissionError (''[Errno 13] Permission denied: '' @ quoted (path_name 0)))"
  by (simp add: process_tts_request_def tts_text_def strip_def is_space_def tts_defs
                failing_env_def stub_env_def idle_def stub_audio stub_reference)

text \<open>
  C5, at the config \<^verbatim>\<open>{"language_id": "ES"}\<close> with \<^verbatim>\<open>es\<close> and \<^verbatim>\<open>en\<close> supported. The id is
  accepted, and the language check of lines 106-111 leaves the lower-cased \<^verbatim>\<open>es\<close> in
  \<^verbatim>\<open>defaults\<close>; but the config that \<^verbatim>\<open>_validate_config\<close> returns holds \<^verbatim>\<open>ES\<close>, because line 128
  stores \<^verbatim>\<open>config[key]\<close> over it. The id is not case-normalized: the model is called with
  \<^verbatim>\<open>ES\<close> and the response reports the language \<^verbatim>\<open>ES\<close>.
\<close>

theorem language_id_not_case_normalized:
  "validate_language [''es'', ''en''] (JObj [(''language_id'', JStr ''ES'')]) defaults
     = Inr [(''language_id'', JStr ''es''), (''exaggeration'', JFloat (1/2)),
            (''temperature'', JFloat (4/5)), (''cfg_weight'', JFloat (1/2)),
            (''repetition_penalty'', JFloat 2), (''min_p'', JFloat (1/20)),
            (''top_p'', JFloat 1)]
   \<and> validate_config [''es'', ''en''] (JObj [(''language_id'', JStr ''ES'')])
     = Inr [(''language_id'', JStr ''ES''), (''exaggeration'', JFloat (1/2)),
            (''temperature'', JFloat (4/5)), (''cfg_weight'', JFloat (1/2)),
            (''repetition_penalty'', JFloat 2), (''min_p'', JFloat (1/20)),
            (''top_p'', JFloat 1)]
   \<and> fst (process_tts_request stub_env
          (JObj [(''text'', JStr ''Hola''),
                 (''config'', JObj [(''language_id'', JStr ''ES'')])]) idle)
     = Inr (tts_response_success stub_env ''UklGRg=='' (JStr ''ES''))
   \<and> map (\<lambda>call. map_of (gen_config call) ''language_id'')
         (calls (snd (process_tts_request stub_env
            (JObj [(''text'', JStr ''Hola''),
                   (''config'', JObj [(''language_id'', JStr ''ES'')])]) idle)))
     = [Some (JStr ''ES'')]"
proof -
  have l: "lower ''ES'' = ''es''" by code_simp
  show ?thesis
    by (simp add: process_tts_request_def tts_text_def strip_def is_space_def tts_defs
                  stub_env_def idle_def stub_audio l del: b64encode.simps)
qed

subsection \<open>The session\<close>

lemma tts_except_shape:
  "tts_except e p w = (Inr r, w') \<Longrightarrow> r = tts_response_error (str_exc e)"
  by (auto simp: tts_except_def Let_def split: sum.splits)

lemma tts_generate_shape:
  "tts_generate E text config p w = (Inr r, w') \<Longrightarrow> \<exists>a l. r = tts_response_success E a l"
  by (auto simp: tts_generate_def Let_def split: sum.splits prod.splits)

lemma tts_synthesize_shape:
  assumes "tts_synthesize E tx data w = (Inr r, w')"
  shows "(\<exists>a l. r = tts_response_success E a l) \<or> (\<exists>m. r = tts_response_error m)"
proof (cases "tts_config E data")
  case (Inl e)
  with assms show ?thesis by (auto simp: tts_synthesize_def dest: tts_except_shape)
next
  case (Inr config)
  show ?thesis
  proof (cases "tts_reference data w")
    case (Pair a w2)
    show ?thesis
    proof (cases a)
      case (Inl e)
      with assms Inr Pair show ?thesis by (auto simp: tts_synthesize_def dest: tts_except_shape)
    next
      case ref: (Inr p)
      show ?thesis
      proof (cases "tts_generate E tx config p w2")
        case gen: (Pair b w3)
        show ?thesis
        proof (cases b)
          case (Inl e)
          with assms Inr Pair ref gen show ?thesis
            by (auto simp: tts_synthesize_def dest: tts_except_shape)
        next
          case ok: (Inr resp)
          with assms Inr Pair ref gen have "r = resp" by (simp add: tts_synthesize_def)
          with gen ok tts_generate_shape[of E tx config p w2 resp w3] show ?thesis by simp
        qed
      qed
    qed
  qed
qed

lemma process_shape:
  assumes "process_tts_request E data w = (Inr r, w')"
  shows "(\<exists>a l. r = tts_response_success E a l) \<or> (\<exists>m. r = tts_response_error m)"
proof (cases "tts_text data w")
  case (Pair a w1)
  show ?thesis
  proof (cases a)
    case (Inl e)
    with assms Pair show ?thesis by (auto simp: process_tts_request_def dest: tts_except_shape)
  next
    case (Inr tx)
    with assms Pair have "tts_synthesize E tx data w1 = (Inr r, w')"
      by (simp add: process_tts_request_def)
    then show ?thesis by (rule tts_synthesize_shape)
  qed
qed

lemma process_is_reply:
  "process_tts_request E data w = (Inr r, w') \<Longrightarrow> is_reply r"
  using process_shape[of E data w r w']
  by (auto simp: is_reply_def message_type_def tts_response_success_def tts_response_error_def)

lemma send_cases:
  "send m s = (if credit s = 0 then (Some (Exc ConnectionClosed ''no close frame received or sent''), s)
               else (None, sent m s))"
  by (simp add: send_def sent_def)

lemma dispatch_result:
  assumes "dispatch E m w s = (r, w', s')"
  shows "(r = None \<and> 0 < credit s \<and> (\<exists>x. s' = sent x s \<and> is_reply x))
       \<or> (\<exists>e. r = Some e \<and> s' = s)"
proof (cases "json_loads m")
  case (Inl e)
  with assms show ?thesis by (auto simp: dispatch_def)
next
  case (Inr data)
  show ?thesis
  proof (cases "py_get data ''type'' JNull")
    case (Inl e)
    with assms Inr show ?thesis by (auto simp: dispatch_def)
  next
    case ty: (Inr msg_type)
    consider (tts) "msg_type = JStr ''tts_request''" | (ping) "msg_type = JStr ''ping''"
      | (other) "msg_type \<noteq> JStr ''tts_request''" "msg_type \<noteq> JStr ''ping''" by blast
    then show ?thesis
    proof cases
      case tts
      show ?thesis
      proof (cases "py_get data ''data'' (JObj [])")
        case (Inl e)
        with assms Inr ty tts show ?thesis by (auto simp: dispatch_def)
      next
        case req: (Inr request)
        show ?thesis
        proof (cases "process_tts_request E request w")
          case (Pair a w1)
          show ?thesis
          proof (cases a)
            case (Inl e)
            with assms Inr ty tts req Pair show ?thesis by (auto simp: dispatch_def)
          next
            case resp: (Inr response)
            from Pair resp have "is_reply response" using process_is_reply by blast
            with assms Inr ty tts req Pair resp show ?thesis
              by (auto simp: dispatch_def send_cases split: if_splits)
          qed
        qed
      qed
    next
      case ping
      have "is_reply pong_response"
        by (simp add: is_reply_def message_type_def pong_response_def)
      with assms Inr ty ping show ?thesis
        by (auto simp: dispatch_def send_cases split: if_splits)
    next
      case other
      show ?thesis
      proof (cases "py_get data ''type'' (JStr ''unknown'')")
        case (Inl e)
        with assms Inr ty other show ?thesis by (auto simp: dispatch_def)
      next
        case shown: (Inr v)
        have "is_reply (error_response (''Unknown message type: '' @ py_str E v))"
          by (simp add: is_reply_def message_type_def error_response_def)
        with assms Inr ty other shown show ?thesis
          by (auto simp: dispatch_def send_cases split: if_splits)
      qed
    qed
  qed
qed

lemma error_is_reply: "is_reply (error_response msg)"
  by (simp add: is_reply_def message_type_def error_response_def)

lemma handle_message_result:
  assumes "handle_message E m w s = (r, w', s')"
  shows "(r = None \<and> 0 < credit s \<and> (\<exists>x. s' = sent x s \<and> is_reply x))
       \<or> (r \<noteq> None \<and> credit s = 0 \<and> s' = s)"
proof (cases "dispatch E m w s")
  case (fields r1 w1 s1)
  from dispatch_result[OF fields] show ?thesis
  proof (elim disjE conjE exE)
    fix x assume "r1 = None" "0 < credit s" "s1 = sent x s" "is_reply x"
    with assms fields show ?thesis by (auto simp: handle_message_def)
  next
    fix e assume "r1 = Some e" "s1 = s"
    with assms fields show ?thesis
      using error_is_reply
      by (auto simp: handle_message_def send_cases split: if_splits)
  qed
qed


lemma handle_message_open:
  assumes "0 < credit s"
  shows "\<exists>w' x. handle_message E m w s = (None, w', sent x s) \<and> is_reply x"
proof (cases "handle_message E m w s")
  case (fields r w' s')
  from handle_message_result[OF fields] assms show ?thesis
    using fields by auto
qed

lemma message_loop_result:
  "message_loop E ms w s = (r, w', s') \<Longrightarrow>
   \<exists>replies. outbox s' = outbox s @ replies \<and> list_all is_reply replies
      \<and> length replies \<le> length ms
      \<and> (length ms \<le> credit s \<longrightarrow> r = None \<and> length replies = length ms)"
proof (induction ms arbitrary: w s)
  case Nil
  then show ?case by simp
next
  case (Cons m ms)
  show ?case
  proof (cases "handle_message E m w s")
    case (fields r1 w1 s1)
    from handle_message_result[OF fields] show ?thesis
    proof (elim disjE conjE exE)
      fix x assume h: "r1 = None" "0 < credit s" "s1 = sent x s" "is_reply x"
      with Cons.prems fields have "message_loop E ms w1 (sent x s) = (r, w', s')" by simp
      from Cons.IH[OF this] obtain replies where
        r: "outbox s' = outbox (sent x s) @ replies" "list_all is_reply replies"
           "length replies \<le> length ms"
           "length ms \<le> credit (sent x s) \<longrightarrow> r = None \<and> length replies = length ms"
        by blast
      have "outbox s' = outbox s @ (x # replies)" using r(1) by (simp add: sent_def)
      moreover have "list_all is_reply (x # replies)" using r(2) h(4) by simp
      moreover have "length (x # replies) \<le> length (m # ms)" using r(3) by simp
      moreover have "length (m # ms) \<le> credit s \<longrightarrow> r = None \<and> length (x # replies) = length (m # ms)"
        using r(4) h(2) by (auto simp: sent_def)
      ultimately show ?thesis by blast
    next
      assume h: "r1 \<noteq> None" "credit s = 0" "s1 = s"
      with Cons.prems fields have "s' = s" by (auto split: option.splits)
      with h show ?thesis by simp
    qed
  qed
qed

lemma reply_not_server_info: "is_reply m \<Longrightarrow> message_type m \<noteq> Some (JStr ''server_info'')"
  by (auto simp: is_reply_def)

text \<open>
  C6. On a connection on which nothing was sent yet, \<^verbatim>\<open>handle_client\<close> sends the
  \<^verbatim>\<open>server_info\<close> message before it looks at any client message: when the transport takes
  the message, the message loop starts from a socket on which it is already sent, it is
  the first message of the connection, and every later message is a \<^verbatim>\<open>tts_response\<close>, a
  \<^verbatim>\<open>pong\<close> or an \<^verbatim>\<open>error\<close>, never a second \<^verbatim>\<open>server_info\<close>; when the peer is already gone,
  nothing at all is sent. The message carries the banner, the list of the keys of
  \<^verbatim>\<open>SUPPORTED_LANGUAGES\<close> (not empty when that constant is not), the default language
  \<^verbatim>\<open>es\<close> and the device.
\<close>

theorem server_info_first_and_once:
  assumes "outbox s = []"
  shows "(0 < credit s \<longrightarrow>
           handle_client E ms w s =
             (case message_loop E ms (log_to (LogInfo (''Client connected: '' @ peer s)) w)
                     (sent (welcome_msg E) s) of
                (r, w', s') \<Rightarrow> (client_gone r s' w', s'))
           \<and> (\<exists>replies. outbox (snd (handle_client E ms w s)) = welcome_msg E # replies
                  \<and> list_all is_reply replies
                  \<and> (\<forall>m\<in>set replies. message_type m \<noteq> Some (JStr ''server_info''))))
       \<and> (credit s = 0 \<longrightarrow> outbox (snd (handle_client E ms w s)) = [])
       \<and> message_type (welcome_msg E) = Some (JStr ''server_info'')
       \<and> data_field ''message'' (welcome_msg E) = Some (JStr ''Chatterbox TTS WebSocket Server'')
       \<and> data_field ''supported_languages'' (welcome_msg E)
            = Some (JArr (map JStr (SUPPORTED_LANGUAGES E)))
       \<and> (SUPPORTED_LANGUAGES E \<noteq> [] \<longrightarrow> map JStr (SUPPORTED_LANGUAGES E) \<noteq> [])
       \<and> data_field ''default_language'' (welcome_msg E) = Some (JStr ''es'')
       \<and> data_field ''device'' (welcome_msg E) = Some (JStr (device E))"
proof (intro conjI impI)
  assume c: "0 < credit s"
  show unfold: "handle_client E ms w s =
             (case message_loop E ms (log_to (LogInfo (''Client connected: '' @ peer s)) w)
                     (sent (welcome_msg E) s) of
                (r, w', s') \<Rightarrow> (client_gone r s' w', s'))"
    using c by (simp add: handle_client_def send_cases Let_def)
  obtain r w' s' where loop:
    "message_loop E ms (log_to (LogInfo (''Client connected: '' @ peer s)) w)
        (sent (welcome_msg E) s) = (r, w', s')"
    by (cases "message_loop E ms (log_to (LogInfo (''Client connected: '' @ peer s)) w)
        (sent (welcome_msg E) s)") auto
  from message_loop_result[OF loop] obtain replies where
    r: "outbox s' = outbox (sent (welcome_msg E) s) @ replies" "list_all is_reply replies"
    by blast
  have "snd (handle_client E ms w s) = s'"
    unfolding unfold loop by simp
  moreover have "outbox s' = welcome_msg E # replies"
    using r(1) assms by (simp add: sent_def)
  ultimately have "outbox (snd (handle_client E ms w s)) = welcome_msg E # replies"
    by simp
  moreover have "\<forall>m\<in>set replies. message_type m \<noteq> Some (JStr ''server_info'')"
    using r(2) reply_not_server_info by (auto simp: list_all_iff)
  ultimately show "\<exists>replies. outbox (snd (handle_client E ms w s)) = welcome_msg E # replies
                  \<and> list_all is_reply replies
                  \<and> (\<forall>m\<in>set replies. message_type m \<noteq> Some (JStr ''server_info''))"
    using r(2) by blast
next
  assume "credit s = 0"
  then show "outbox (snd (handle_client E ms w s)) = []"
    using assms by (simp add: handle_client_def send_cases Let_def)
qed (simp_all add: welcome_msg_def message_type_def data_field_def)

text \<open>
  C7 (as amended). While the transport takes a message (\<open>0 < credit s\<close>): a message on
  which \<^verbatim>\<open>json.loads\<close> raises \<^verbatim>\<open>JSONDecodeError\<close> is answered with the error "Invalid JSON
  format"; a message on which \<^verbatim>\<open>json.loads\<close> raises anything else is answered, like every
  other exception that leaves the dispatch, with an error whose text is "Internal
  server error: " followed by \<^verbatim>\<open>str(e)\<close>; a message object whose type is a string other
  than \<^verbatim>\<open>tts_request\<close> and \<^verbatim>\<open>ping\<close> is answered with exactly
  \<^verbatim>\<open>{"type": "error", "data": {"message": "Unknown message type: <type>"}}\<close>. Every
  message, failing or not, gets one reply and the loop goes on with the next message: a
  run of messages that the transport has room for is answered message by message and
  ends without an exception.
\<close>

theorem per_message_errors_keep_session_open:
  assumes "0 < credit s"
  shows "handle_message E (Undecodable e0) w s
           = (if kind_of e0 = JSONDecodeError
              then (None, w, sent (error_response ''Invalid JSON format'') s)
              else (None, log_to (LogError (''Error handling message: '' @ str_exc e0)) w,
                    sent (error_response (''Internal server error: '' @ str_exc e0)) s))
       \<and> (map_of kvs ''type'' = Some (JStr ty) \<and> ty \<noteq> ''tts_request'' \<and> ty \<noteq> ''ping'' \<longrightarrow>
            handle_message E (Parsed (JObj kvs)) w s
              = (None, w, sent (error_response (''Unknown message type: '' @ ty)) s))
       \<and> (\<forall>e w1 s1. dispatch E m w s = (Some e, w1, s1) \<and> kind_of e \<noteq> JSONDecodeError \<longrightarrow>
            handle_message E m w s
              = (None, log_to (LogError (''Error handling message: '' @ str_exc e)) w1,
                 sent (error_response (''Internal server error: '' @ str_exc e)) s))
       \<and> (\<exists>w' x. handle_message E m w s = (None, w', sent x s) \<and> is_reply x
              \<and> message_loop E (m # rest) w s = message_loop E rest w' (sent x s))
       \<and> (length ms \<le> credit s \<longrightarrow>
            (\<exists>w' s' replies. message_loop E ms w s = (None, w', s')
               \<and> outbox s' = outbox s @ replies \<and> length replies = length ms
               \<and> list_all is_reply replies))"
proof (intro conjI impI allI)
  show "handle_message E (Undecodable e0) w s
           = (if kind_of e0 = JSONDecodeError
              then (None, w, sent (error_response ''Invalid JSON format'') s)
              else (None, log_to (LogError (''Error handling message: '' @ str_exc e0)) w,
                    sent (error_response (''Internal server error: '' @ str_exc e0)) s))"
    using assms by (simp add: handle_message_def dispatch_def json_loads_def send_cases)
next
  assume "map_of kvs ''type'' = Some (JStr ty) \<and> ty \<noteq> ''tts_request'' \<and> ty \<noteq> ''ping''"
  then show "handle_message E (Parsed (JObj kvs)) w s
              = (None, w, sent (error_response (''Unknown message type: '' @ ty)) s)"
    using assms
    by (simp add: handle_message_def dispatch_def json_loads_def send_cases py_str_def)
next
  fix e w1 s1
  assume a: "dispatch E m w s = (Some e, w1, s1) \<and> kind_of e \<noteq> JSONDecodeError"
  with dispatch_result[of E m w s "Some e" w1 s1] have "s1 = s" by simp
  with a show "handle_message E m w s
              = (None, log_to (LogError (''Error handling message: '' @ str_exc e)) w1,
                 sent (error_response (''Internal server error: '' @ str_exc e)) s)"
    using assms by (simp add: handle_message_def send_cases)
next
  from handle_message_open[OF assms, of E m w] obtain w' x where
    h: "handle_message E m w s = (None, w', sent x s)" "is_reply x" by blast
  then have "message_loop E (m # rest) w s = message_loop E rest w' (sent x s)" by simp
  with h show "\<exists>w' x. handle_message E m w s = (None, w', sent x s) \<and> is_reply x
              \<and> message_loop E (m # rest) w s = message_loop E rest w' (sent x s)"
    by blast
next
  assume len: "length ms \<le> credit s"
  obtain r w' s' where loop: "message_loop E ms w s = (r, w', s')"
    by (cases "message_loop E ms w s") auto
  from message_loop_result[OF loop] len obtain replies where
    "outbox s' = outbox s @ replies" "list_all is_reply replies" "r = None"
    "length replies = length ms" by blast
  with loop show "\<exists>w' s' replies. message_loop E ms w s = (None, w', s')
               \<and> outbox s' = outbox s @ replies \<and> length replies = length ms
               \<and> list_all is_reply replies" by blast
qed

text \<open>
  C7 as stated fails on its first clause. The frame of a hundred thousand opening
  brackets is malformed JSON, but \<^verbatim>\<open>json.loads\<close> raises \<^verbatim>\<open>RecursionError\<close> on it, which the
  clause \<^verbatim>\<open>except json.JSONDecodeError\<close> of line 254 does not catch: the reply comes from
  line 263 and is not "Invalid JSON format". The same holds for a binary frame that is
  not UTF-8 (\<^verbatim>\<open>UnicodeDecodeError\<close>). The session stays open in both cases.
\<close>

theorem malformed_frame_not_invalid_json_format:
  "handle_message stub_env
     (Undecodable (Exc RecursionError
        ''maximum recursion depth exceeded while decoding a JSON array from a unicode string''))
     idle (fresh_socket 3)
   = (None,
      log_to (LogError (''Error handling message: maximum recursion depth exceeded ''
                        @ ''while decoding a JSON array from a unicode string'')) idle,
      \<lparr>peer = ''127.0.0.1:50000'',
       outbox = [JObj [(''type'', JStr ''error''),
                       (''data'', JObj [(''message'',
                          JStr (''Internal server error: maximum recursion depth exceeded ''
                                @ ''while decoding a JSON array from a unicode string''))])]],
       credit = 2\<rparr>)
   \<and> outbox (snd (snd (handle_message stub_env
        (Undecodable (Exc UnicodeDecodeError
           ''utf-8 codec cannot decode byte 0xff in position 0: invalid start byte''))
        idle (fresh_socket 3))))
     \<noteq> [error_response ''Invalid JSON format'']"
  by (simp add: handle_message_def dispatch_def json_loads_def send_def fresh_socket_def
                error_response_def)

text \<open>
  C10. A message that is valid JSON but not an object (a string, a number, an array,
  \<^verbatim>\<open>null\<close>, a boolean) makes \<^verbatim>\<open>data.get\<close> raise \<^verbatim>\<open>AttributeError\<close>; the reply is not
  "Invalid JSON format" but the error "Internal server error: '<type>' object has no
  attribute 'get'", the failure is logged, and the loop goes on with the next message.
\<close>

theorem non_object_json_internal_error:
  assumes "0 < credit s" and "\<not> is_object v"
  shows "handle_message E (Parsed v) w s
           = (None,
              log_to (LogError (''Error handling message: '' @ quoted (type_name v)
                                 @ '' object has no attribute '' @ quoted ''get'')) w,
              sent (error_response (''Internal server error: '' @ quoted (type_name v)
                                      @ '' object has no attribute '' @ quoted ''get'')) s)
       \<and> error_response (''Internal server error: '' @ quoted (type_name v)
                           @ '' object has no attribute '' @ quoted ''get'')
           \<noteq> error_response ''Invalid JSON format''
       \<and> message_loop E (Parsed v # rest) w s
           = message_loop E rest
               (log_to (LogError (''Error handling message: '' @ quoted (type_name v)
                                   @ '' object has no attribute '' @ quoted ''get'')) w)
               (sent (error_response (''Internal server error: '' @ quoted (type_name v)
                                        @ '' object has no attribute '' @ quoted ''get'')) s)"
proof -
  have d: "dispatch E (Parsed v) w s = (Some (no_attribute v ''get''), w, s)"
    using assms(2) by (cases v) (simp_all add: dispatch_def json_loads_def is_object_def)
  have h: "handle_message E (Parsed v) w s
           = (None,
              log_to (LogError (''Error handling message: '' @ quoted (type_name v)
                                 @ '' object has no attribute '' @ quoted ''get'')) w,
              sent (error_response (''Internal server error: '' @ quoted (type_name v)
                                      @ '' object has no attribute '' @ quoted ''get'')) s)"
    using assms(1) by (simp add: handle_message_def d no_attribute_def send_cases)
  have "error_response (''Internal server error: '' @ quoted (type_name v)
                           @ '' object has no attribute '' @ quoted ''get'')
           \<noteq> error_response ''Invalid JSON format''"
    by (simp add: error_response_def)
  with h show ?thesis by simp
qed


theorem server_info_first_and_once_witness:
  "outbox (fresh_socket 3) = [] \<and> 0 < credit (fresh_socket 3)
   \<and> SUPPORTED_LANGUAGES stub_env \<noteq> []
   \<and> take 1 (outbox (snd (handle_client stub_env
                [Parsed (JObj [(''type'', JStr ''ping''), (''data'', JObj [])])] idle (fresh_socket 3))))
       = [welcome_msg stub_env]
   \<and> outbox (snd (handle_client stub_env
                [Parsed (JObj [(''type'', JStr ''ping''), (''data'', JObj [])])] idle (fresh_socket 0)))
       = []
   \<and> data_field ''supported_languages'' (welcome_msg stub_env) = Some (JArr [JStr ''es'', JStr ''en''])"
  using server_info_first_and_once[of "fresh_socket 3" stub_env
          "[Parsed (JObj [(''type'', JStr ''ping''), (''data'', JObj [])])]" idle]
        server_info_first_and_once[of "fresh_socket 0" stub_env
          "[Parsed (JObj [(''type'', JStr ''ping''), (''data'', JObj [])])]" idle]
  by (auto simp: fresh_socket_def stub_env_def)

theorem per_message_errors_keep_session_open_witness:
  "0 < credit (fresh_socket 3)
   \<and> handle_message stub_env (Undecodable (Exc JSONDecodeError ''Expecting value'')) idle (fresh_socket 3)
       = (None, idle,
          \<lparr>peer = ''127.0.0.1:50000'',
           outbox = [JObj [(''type'', JStr ''error''),
                           (''data'', JObj [(''message'', JStr ''Invalid JSON format'')])]],
           credit = 2\<rparr>)
   \<and> handle_message stub_env (Parsed (JObj [(''type'', JStr ''foo'')])) idle (fresh_socket 3)
       = (None, idle,
          \<lparr>peer = ''127.0.0.1:50000'',
           outbox = [JObj [(''type'', JStr ''error''),
                           (''data'', JObj [(''message'', JStr ''Unknown message type: foo'')])]],
           credit = 2\<rparr>)
   \<and> handle_message stub_env (Parsed (JStr ''abc'')) idle (fresh_socket 3)
       = (None,
          log_to (LogError (''Error handling message: '' @ quoted ''str''
                             @ '' object has no attribute '' @ quoted ''get'')) idle,
          sent (error_response (''Internal server error: '' @ quoted ''str''
                                  @ '' object has no attribute '' @ quoted ''get''))
            (fresh_socket 3))
   \<and> message_loop stub_env
         [Undecodable (Exc JSONDecodeError ''Expecting value''), Parsed (JObj [(''type'', JStr ''ping'')])]
         idle (fresh_socket 3)
       = (None, idle,
          \<lparr>peer = ''127.0.0.1:50000'',
           outbox = [error_response ''Invalid JSON format'', pong_response],
           credit = 1\<rparr>)
   \<and> fst (message_loop stub_env
         [Undecodable (Exc JSONDecodeError ''Expecting value''), Parsed (JObj [(''type'', JStr ''ping'')])]
         idle (fresh_socket 3)) = None
   \<and> handle_message stub_env
         (Undecodable (Exc RecursionError ''maximum recursion depth exceeded'')) idle (fresh_socket 3)
       = (None,
          log_to (LogError ''Error handling message: maximum recursion depth exceeded'') idle,
          sent (error_response ''Internal server error: maximum recursion depth exceeded'')
            (fresh_socket 3))"
proof -
  note a = per_message_errors_keep_session_open[where s = "fresh_socket 3" and E = stub_env
             and ?e0.0 = "Exc JSONDecodeError ''Expecting value''" and w = idle
             and kvs = "[(''type'', JStr ''foo'')]" and ty = "''foo''"
             and m = "Undecodable (Exc JSONDecodeError ''Expecting value'')"
             and rest = "[Parsed (JObj [(''type'', JStr ''ping'')])]"
             and ms = "[Undecodable (Exc JSONDecodeError ''Expecting value''),
                        Parsed (JObj [(''type'', JStr ''ping'')])]"]
  note b = per_message_errors_keep_session_open[where s = "fresh_socket 3" and E = stub_env
             and ?e0.0 = "Exc RecursionError ''maximum recursion depth exceeded''" and w = idle
             and kvs = "[(''type'', JStr ''foo'')]" and ty = "''foo''"
             and m = "Parsed (JStr ''abc'')" and rest = "[]" and ms = "[]"]
  have c: "0 < credit (fresh_socket 3)" by (simp add: fresh_socket_def)
  have first: "handle_message stub_env (Undecodable (Exc JSONDecodeError ''Expecting value'')) idle (fresh_socket 3)
       = (None, idle, sent (error_response ''Invalid JSON format'') (fresh_socket 3))"
    using a[OF c] by simp
  have second: "handle_message stub_env (Parsed (JObj [(''type'', JStr ''foo'')])) idle (fresh_socket 3)
       = (None, idle, sent (error_response ''Unknown message type: foo'') (fresh_socket 3))"
    using a[OF c] by simp
  from a[OF c] obtain w' x where
    h: "handle_message stub_env (Undecodable (Exc JSONDecodeError ''Expecting value'')) idle (fresh_socket 3)
          = (None, w', sent x (fresh_socket 3))"
       "message_loop stub_env
          (Undecodable (Exc JSONDecodeError ''Expecting value'') # [Parsed (JObj [(''type'', JStr ''ping'')])])
          idle (fresh_socket 3)
        = message_loop stub_env [Parsed (JObj [(''type'', JStr ''ping'')])] w'
            (sent x (fresh_socket 3))"
    by blast
  from h(1) first have "w' = idle"
    and "sent x (fresh_socket 3) = sent (error_response ''Invalid JSON format'') (fresh_socket 3)"
    by simp_all
  with h(2) have third: "message_loop stub_env
         [Undecodable (Exc JSONDecodeError ''Expecting value''), Parsed (JObj [(''type'', JStr ''ping'')])]
         idle (fresh_socket 3)
       = message_loop stub_env [Parsed (JObj [(''type'', JStr ''ping'')])] idle
            (sent (error_response ''Invalid JSON format'') (fresh_socket 3))"
    by simp
  have d: "dispatch stub_env (Parsed (JStr ''abc'')) idle (fresh_socket 3)
             = (Some (no_attribute (JStr ''abc'') ''get''), idle, fresh_socket 3)"
    by (simp add: dispatch_def json_loads_def)
  have fourth: "handle_message stub_env (Parsed (JStr ''abc'')) idle (fresh_socket 3)
       = (None,
          log_to (LogError (''Error handling message: '' @ quoted ''str''
                             @ '' object has no attribute '' @ quoted ''get'')) idle,
          sent (error_response (''Internal server error: '' @ quoted ''str''
                                  @ '' object has no attribute '' @ quoted ''get''))
            (fresh_socket 3))"
    using b[OF c] d by (simp add: no_attribute_def)
  have "length [Undecodable (Exc JSONDecodeError ''Expecting value''), Parsed (JObj [(''type'', JStr ''ping'')])]
          \<le> credit (fresh_socket 3)"
    by (simp add: fresh_socket_def)
  with a[OF c] have fifth: "fst (message_loop stub_env
         [Undecodable (Exc JSONDecodeError ''Expecting value''), Parsed (JObj [(''type'', JStr ''ping'')])]
         idle (fresh_socket 3)) = None"
    by fastforce
  have sixth: "message_loop stub_env
         [Undecodable (Exc JSONDecodeError ''Expecting value''), Parsed (JObj [(''type'', JStr ''ping'')])]
         idle (fresh_socket 3)
       = (None, idle,
          \<lparr>peer = ''127.0.0.1:50000'',
           outbox = [error_response ''Invalid JSON format'', pong_response],
           credit = 1\<rparr>)"
    unfolding third
    by (simp add: sent_def fresh_socket_def handle_message_def dispatch_def json_loads_def send_def)
  have "handle_message stub_env (Undecodable (Exc JSONDecodeError ''Expecting value'')) idle (fresh_socket 3)
       = (None, idle,
          \<lparr>peer = ''127.0.0.1:50000'',
           outbox = [JObj [(''type'', JStr ''error''),
                           (''data'', JObj [(''message'', JStr ''Invalid JSON format'')])]],
           credit = 2\<rparr>)"
    unfolding first by (simp add: sent_def fresh_socket_def error_response_def)
  moreover have "handle_message stub_env (Parsed (JObj [(''type'', JStr ''foo'')])) idle (fresh_socket 3)
       = (None, idle,
          \<lparr>peer = ''127.0.0.1:50000'',
           outbox = [JObj [(''type'', JStr ''error''),
                           (''data'', JObj [(''message'', JStr ''Unknown message type: foo'')])]],
           credit = 2\<rparr>)"
    unfolding second by (simp add: sent_def fresh_socket_def error_response_def)
  moreover have "handle_message stub_env
         (Undecodable (Exc RecursionError ''maximum recursion depth exceeded'')) idle (fresh_socket 3)
       = (None,
          log_to (LogError ''Error handling message: maximum recursion depth exceeded'') idle,
          sent (error_response ''Internal server error: maximum recursion depth exceeded'')
            (fresh_socket 3))"
    using b[OF c] by simp
  ultimately show ?thesis
    using c fourth fifth sixth by blast
qed

theorem non_object_json_internal_error_witness:
  "0 < credit (fresh_socket 2) \<and> \<not> is_object (JArr [JInt 1])
   \<and> fst (handle_message stub_env (Parsed (JArr [JInt 1])) idle (fresh_socket 2)) = None
   \<and> outbox (snd (snd (handle_message stub_env (Parsed (JArr [JInt 1])) idle (fresh_socket 2))))
       = [JObj [(''type'', JStr ''error''),
                (''data'', JObj [(''message'',
                   JStr (''Internal server error: '' @ quoted ''list''
                         @ '' object has no attribute '' @ quoted ''get''))])]]
   \<and> credit (snd (snd (handle_message stub_env (Parsed (JArr [JInt 1])) idle (fresh_socket 2)))) = 1"
  using non_object_json_internal_error[of "fresh_socket 2" "JArr [JInt 1]" stub_env idle "[]"]
  by (simp add: fresh_socket_def is_object_def sent_def error_response_def)

subsection \<open>When \<^verbatim>\<open>os.unlink\<close> works\<close>

text \<open>
  The only exception that leaves \<^verbatim>\<open>process_tts_request\<close> is the \<^verbatim>\<open>PermissionError\<close> of the
  unguarded \<^verbatim>\<open>os.unlink\<close> in the \<^verbatim>\<open>except\<close> clause. In a state where no file is locked,
  every request returns a response, of the success shape or of the error shape.
\<close>

lemma undeletable_log_to: "undeletable (log_to entry w) = undeletable w"
  by (simp add: log_to_def)

lemma undeletable_unlink: "unlink p w = Inr w' \<Longrightarrow> undeletable w' = undeletable w"
  by (auto simp: unlink_def split: if_splits)

lemma undeletable_encode_finally: "undeletable (encode_finally p w) = undeletable w"
proof (cases p)
  case None
  then show ?thesis by (simp add: encode_finally_def)
next
  case (Some q)
  show ?thesis
  proof (cases "unlink q w")
    case (Inl e)
    then show ?thesis by (simp add: encode_finally_def Some undeletable_log_to)
  next
    case (Inr w1)
    then show ?thesis by (simp add: encode_finally_def Some undeletable_unlink[OF Inr])
  qed
qed

lemma undeletable_encode_audio:
  "undeletable (snd (encode_audio E audio rate w)) = undeletable w"
  by (simp add: encode_audio_def Let_def undeletable_encode_finally undeletable_log_to
           split: sum.splits)

lemma undeletable_decode_audio:
  "undeletable (snd (decode_audio b w)) = undeletable w"
  by (simp add: decode_audio_def Let_def undeletable_log_to split: sum.splits)


lemma undeletable_tts_text: "undeletable (snd (tts_text data w)) = undeletable w"
proof (cases "py_in ''text'' data")
  case (Inl e)
  then show ?thesis by (simp add: tts_text_def)
next
  case (Inr present)
  show ?thesis
  proof (cases "py_getitem data ''text''")
    case (Inl e)
    then show ?thesis by (simp add: tts_text_def Inr)
  next
    case got: (Inr v)
    show ?thesis
      by (cases v) (simp_all add: tts_text_def Inr got undeletable_log_to)
  qed
qed

lemma undeletable_tts_reference: "undeletable (snd (tts_reference data w)) = undeletable w"
proof (cases "py_in ''reference_audio'' data")
  case (Inl e)
  then show ?thesis by (simp add: tts_reference_def)
next
  case (Inr present)
  show ?thesis
  proof (cases "py_getitem data ''reference_audio''")
    case (Inl e)
    then show ?thesis by (simp add: tts_reference_def Inr)
  next
    case got: (Inr v)
    show ?thesis
    proof (cases "decode_audio v w")
      case (Pair a w1)
      then have "undeletable w1 = undeletable w"
        using undeletable_decode_audio[of v w] by simp
      then show ?thesis
        by (cases a) (simp_all add: tts_reference_def Inr got Pair)
    qed
  qed
qed

lemma unlink_reference_Inr:
  "unlink_reference p w = Inr w' \<Longrightarrow> undeletable w' = undeletable w"
  by (auto simp: unlink_reference_def dest: undeletable_unlink split: option.splits if_splits)

lemma undeletable_tts_generate:
  "undeletable (snd (tts_generate E tx config p w)) = undeletable w"
proof (cases "py_getitem (JObj config) ''language_id''")
  case (Inl e)
  then show ?thesis by (simp add: tts_generate_def)
next
  case (Inr language)
  define call where "call = \<lparr>gen_text = tx, gen_config = config, audio_prompt_path = p\<rparr>"
  define w1 where "w1 = (log_to (LogInfo (''Generating TTS for text: '' @ quoted (take 50 tx @ ''...'')
                                       @ '' in language: '' @ py_str E language)) w)
                      \<lparr>calls := calls w @ [call]\<rparr>"
  have w1: "undeletable w1 = undeletable w" by (simp add: w1_def undeletable_log_to)
  have unf: "tts_generate E tx config p w =
        (case generate E call of
           Inl e \<Rightarrow> (Inl e, w1)
         | Inr audio_tensor \<Rightarrow>
             (case encode_audio E audio_tensor (sr E) w1 of
                (Inl e, w2) \<Rightarrow> (Inl e, w2)
              | (Inr audio_base64, w2) \<Rightarrow>
                  (case unlink_reference p w2 of
                     Inl e \<Rightarrow> (Inl e, w2)
                   | Inr w3 \<Rightarrow> (Inr (tts_response_success E audio_base64 language), w3))))"
    unfolding tts_generate_def Inr call_def w1_def Let_def by simp
  show ?thesis
  proof (cases "generate E call")
    case (Inl e)
    then show ?thesis by (simp add: unf w1)
  next
    case gen: (Inr audio)
    show ?thesis
    proof (cases "encode_audio E audio (sr E) w1")
      case (Pair a w2)
      then have w2: "undeletable w2 = undeletable w"
        using undeletable_encode_audio[of E audio "sr E" w1] w1 by simp
      show ?thesis
      proof (cases a)
        case (Inl e)
        then show ?thesis by (simp add: unf gen Pair w2)
      next
        case enc: (Inr b)
        show ?thesis
        proof (cases "unlink_reference p w2")
          case (Inl e)
          then show ?thesis by (simp add: unf gen Pair enc w2)
        next
          case ok: (Inr w3)
          from unlink_reference_Inr[OF ok] w2 show ?thesis
            by (simp add: unf gen Pair enc ok)
        qed
      qed
    qed
  qed
qed

lemma unlink_reference_Inl:
  "unlink_reference p w = Inl e \<Longrightarrow>
   \<exists>q. p = Some q \<and> q \<in> undeletable w \<and> kind_of e = PermissionError"
  by (auto simp: unlink_reference_def unlink_def split: option.splits if_splits)

lemma tts_except_Inl:
  "tts_except e p w = (Inl e', w') \<Longrightarrow>
   \<exists>q. p = Some q \<and> q \<in> undeletable w \<and> kind_of e' = PermissionError"
proof -
  assume a: "tts_except e p w = (Inl e', w')"
  define w1 where "w1 = log_to (LogTraceback e)
                 (log_to (LogError (''Error processing TTS request: '' @ str_exc e)) w)"
  have u: "undeletable w1 = undeletable w" by (simp add: w1_def undeletable_log_to)
  from a have "unlink_reference p w1 = Inl e'"
    by (auto simp: tts_except_def Let_def w1_def split: sum.splits)
  from unlink_reference_Inl[OF this] u show ?thesis by simp
qed


lemma tts_synthesize_Inl:
  assumes "tts_synthesize E tx data w = (Inl e, w')"
  shows "kind_of e = PermissionError \<and> undeletable w \<noteq> {}"
proof (cases "tts_config E data")
  case (Inl e0)
  with assms have "tts_except e0 None w = (Inl e, w')" by (simp add: tts_synthesize_def)
  from tts_except_Inl[OF this] show ?thesis by simp
next
  case (Inr config)
  show ?thesis
  proof (cases "tts_reference data w")
    case (Pair a w2)
    then have w2: "undeletable w2 = undeletable w"
      using undeletable_tts_reference[of data w] by simp
    show ?thesis
    proof (cases a)
      case (Inl e0)
      with assms Inr Pair have "tts_except e0 None w2 = (Inl e, w')"
        by (simp add: tts_synthesize_def)
      from tts_except_Inl[OF this] show ?thesis by simp
    next
      case ref: (Inr p)
      show ?thesis
      proof (cases "tts_generate E tx config p w2")
        case gen: (Pair b w3)
        then have w3: "undeletable w3 = undeletable w"
          using undeletable_tts_generate[of E tx config p w2] w2 by simp
        show ?thesis
        proof (cases b)
          case (Inl e0)
          with assms Inr Pair ref gen have "tts_except e0 p w3 = (Inl e, w')"
            by (simp add: tts_synthesize_def)
          from tts_except_Inl[OF this] w3 show ?thesis by auto
        next
          case ok: (Inr resp)
          with assms Inr Pair ref gen show ?thesis by (simp add: tts_synthesize_def)
        qed
      qed
    qed
  qed
qed

lemma process_raises_only_when_unlink_fails:
  assumes "process_tts_request E data w = (Inl e, w')"
  shows "kind_of e = PermissionError \<and> undeletable w \<noteq> {}"
proof (cases "tts_text data w")
  case (Pair a w1)
  then have w1: "undeletable w1 = undeletable w"
    using undeletable_tts_text[of data w] by simp
  show ?thesis
  proof (cases a)
    case (Inl e0)
    with assms Pair have "tts_except e0 None w1 = (Inl e, w')"
      by (simp add: process_tts_request_def)
    from tts_except_Inl[OF this] show ?thesis by simp
  next
    case (Inr tx)
    with assms Pair have "tts_synthesize E tx data w1 = (Inl e, w')"
      by (simp add: process_tts_request_def)
    from tts_synthesize_Inl[OF this] w1 show ?thesis by simp
  qed
qed

lemma process_returns_when_unlink_works:
  assumes "undeletable w = {}"
  shows "\<exists>r w'. process_tts_request E data w = (Inr r, w')
           \<and> ((\<exists>a l. r = tts_response_success E a l) \<or> (\<exists>m. r = tts_response_error m))"
proof (cases "process_tts_request E data w")
  case (Pair a w')
  show ?thesis
  proof (cases a)
    case (Inl e)
    with Pair process_raises_only_when_unlink_fails[of E data w e w'] assms show ?thesis by simp
  next
    case (Inr r)
    with Pair process_shape[of E data w r w'] show ?thesis by simp
  qed
qed

lemma response_shapes_differ: "tts_response_success E a l \<noteq> tts_response_error m"
  by (simp add: tts_response_success_def tts_response_error_def)

text \<open>
  In a state where no file is locked and every write succeeds, the temporary files are
  the same after a request as before it: the reference audio file and the file of
  \<^verbatim>\<open>_encode_audio\<close> are removed on every path, whether the request succeeds, fails
  validation, fails to decode or the model raises.
\<close>

lemma fresh_path_greater: "(p, c) \<in> set fs \<Longrightarrow> p < fresh_path fs"
  by (induction fs rule: fresh_path.induct) auto

lemma fresh_path_new: "fresh_path fs \<notin> fst ` set fs"
  using fresh_path_greater by fastforce

lemma delete_fresh: "AList.delete (fresh_path fs) (AList.update (fresh_path fs) v fs) = fs"
  by (simp add: delete_update_same fresh_path_new)

lemma map_of_fresh: "map_of fs (fresh_path fs) = None"
  using fresh_path_new[of fs] by (simp add: map_of_eq_None_iff)


lemma files_log_to: "files (log_to entry w) = files w"
  by (simp add: log_to_def)

lemma unlink_reference_free:
  assumes "undeletable w = {}"
  shows "\<exists>w'. unlink_reference p w = Inr w'
           \<and> files w' = (case p of None \<Rightarrow> files w | Some q \<Rightarrow> AList.delete q (files w))"
proof (cases p)
  case None
  then show ?thesis by (simp add: unlink_reference_def)
next
  case (Some q)
  show ?thesis
  proof (cases "exists q w")
    case True
    with assms show ?thesis by (simp add: unlink_reference_def Some unlink_def)
  next
    case False
    then have "q \<notin> fst ` set (files w)" by (simp add: exists_def map_of_eq_None_iff)
    with False show ?thesis by (simp add: unlink_reference_def Some)
  qed
qed

lemma encode_finally_free:
  assumes "undeletable w = {}"
  shows "files (encode_finally (Some q) w) = AList.delete q (files w)"
proof (cases "exists q w")
  case True
  with assms show ?thesis by (simp add: encode_finally_def unlink_def)
next
  case False
  then have "q \<notin> fst ` set (files w)" by (simp add: exists_def map_of_eq_None_iff)
  with False show ?thesis by (simp add: encode_finally_def)
qed

lemma files_encode_audio:
  assumes "undeletable w = {}"
  shows "files (snd (encode_audio E audio rate w)) = files w"
proof (cases "to_numpy E audio")
  case (Inl e)
  then show ?thesis by (simp add: encode_audio_def encode_finally_def files_log_to)
next
  case (Inr np)
  define q where "q = fresh_path (files w)"
  show ?thesis
  proof (cases "torchaudio_save E np rate")
    case (Inl e)
    have "files (snd (encode_audio E audio rate w)) =
          files (encode_finally (Some q)
                   (log_to (LogError (''Failed to encode audio: '' @ str_exc e))
                      (w\<lparr>files := AList.update q [] (files w)\<rparr>)))"
      by (simp add: encode_audio_def Inr Inl Let_def q_def)
    also have "\<dots> = AList.delete q (AList.update q [] (files w))"
      using assms by (subst encode_finally_free) (simp_all add: log_to_def)
    also have "\<dots> = files w" by (simp add: q_def delete_fresh)
    finally show ?thesis .
  next
    case saved: (Inr audio_data)
    have "files (snd (encode_audio E audio rate w)) =
          files (encode_finally (Some q)
                   (w\<lparr>files := AList.update q audio_data (AList.update q [] (files w))\<rparr>))"
      by (simp add: encode_audio_def Inr saved Let_def q_def)
    also have "\<dots> = AList.delete q (AList.update q audio_data (AList.update q [] (files w)))"
      using assms by (subst encode_finally_free) simp_all
    also have "\<dots> = files w" by (simp add: q_def delete_fresh)
    finally show ?thesis .
  qed
qed

lemma files_tts_text: "files (snd (tts_text data w)) = files w"
proof (cases "py_in ''text'' data")
  case (Inl e)
  then show ?thesis by (simp add: tts_text_def)
next
  case (Inr present)
  show ?thesis
  proof (cases "py_getitem data ''text''")
    case (Inl e)
    then show ?thesis by (simp add: tts_text_def Inr)
  next
    case got: (Inr v)
    show ?thesis
      by (cases v) (simp_all add: tts_text_def Inr got files_log_to)
  qed
qed

lemma files_tts_reference:
  assumes "tts_reference data w = (a, w')" and "unwritable w = {}"
  shows "case a of
           Inr (Some q) \<Rightarrow> q = fresh_path (files w) \<and> (\<exists>d. files w' = AList.update q d (files w))
         | _ \<Rightarrow> files w' = files w"
proof (cases "py_in ''reference_audio'' data")
  case (Inl e)
  with assms show ?thesis by (auto simp: tts_reference_def)
next
  case (Inr present)
  show ?thesis
  proof (cases "py_getitem data ''reference_audio''")
    case (Inl e)
    with assms Inr show ?thesis by (auto simp: tts_reference_def split: if_splits)
  next
    case got: (Inr v)
    show ?thesis
    proof (cases "b64decode v")
      case (Inl e)
      with assms Inr got show ?thesis
        by (auto simp: tts_reference_def decode_audio_def files_log_to split: if_splits)
    next
      case dec: (Inr bytes)
      with assms Inr got show ?thesis
        by (auto simp: tts_reference_def decode_audio_def Let_def split: if_splits)
    qed
  qed
qed


lemma files_tts_generate:
  assumes free: "undeletable w = {}" and run: "tts_generate E tx config p w = (b, w3)"
  shows "files w3 =
           (case b of
              Inl e \<Rightarrow> files w
            | Inr r \<Rightarrow> (case p of None \<Rightarrow> files w | Some q \<Rightarrow> AList.delete q (files w)))"
proof (cases "py_getitem (JObj config) ''language_id''")
  case (Inl e)
  from run show ?thesis unfolding tts_generate_def Inl by auto
next
  case (Inr language)
  define call where "call = \<lparr>gen_text = tx, gen_config = config, audio_prompt_path = p\<rparr>"
  define w1 where "w1 = (log_to (LogInfo (''Generating TTS for text: '' @ quoted (take 50 tx @ ''...'')
                                       @ '' in language: '' @ py_str E language)) w)
                      \<lparr>calls := calls w @ [call]\<rparr>"
  have w1: "undeletable w1 = {}" "files w1 = files w"
    using free by (simp_all add: w1_def log_to_def)
  have unf: "tts_generate E tx config p w =
        (case generate E call of
           Inl e \<Rightarrow> (Inl e, w1)
         | Inr audio_tensor \<Rightarrow>
             (case encode_audio E audio_tensor (sr E) w1 of
                (Inl e, w2) \<Rightarrow> (Inl e, w2)
              | (Inr audio_base64, w2) \<Rightarrow>
                  (case unlink_reference p w2 of
                     Inl e \<Rightarrow> (Inl e, w2)
                   | Inr w3 \<Rightarrow> (Inr (tts_response_success E audio_base64 language), w3))))"
    unfolding tts_generate_def Inr call_def w1_def Let_def by simp
  show ?thesis
  proof (cases "generate E call")
    case (Inl e)
    with run w1 show ?thesis by (auto simp: unf)
  next
    case gen: (Inr audio)
    show ?thesis
    proof (cases "encode_audio E audio (sr E) w1")
      case (Pair a w2)
      have w2: "undeletable w2 = {}" "files w2 = files w"
        using undeletable_encode_audio[of E audio "sr E" w1]
              files_encode_audio[OF w1(1), of E audio "sr E"] w1 Pair by simp_all
      show ?thesis
      proof (cases a)
        case (Inl e)
        with run gen Pair w2 show ?thesis by (auto simp: unf)
      next
        case enc: (Inr b64)
        from unlink_reference_free[OF w2(1), of p] obtain w4 where
          u: "unlink_reference p w2 = Inr w4"
             "files w4 = (case p of None \<Rightarrow> files w2 | Some q \<Rightarrow> AList.delete q (files w2))"
          by blast
        with run gen Pair enc w2 show ?thesis by (auto simp: unf split: option.splits)
      qed
    qed
  qed
qed

lemma files_tts_except:
  assumes "undeletable w = {}"
  shows "\<exists>w'. tts_except e p w = (Inr (tts_response_error (str_exc e)), w')
           \<and> files w' = (case p of None \<Rightarrow> files w | Some q \<Rightarrow> AList.delete q (files w))"
proof -
  define w1 where "w1 = log_to (LogTraceback e)
                 (log_to (LogError (''Error processing TTS request: '' @ str_exc e)) w)"
  have w1: "undeletable w1 = {}" "files w1 = files w"
    using assms by (simp_all add: w1_def log_to_def)
  from unlink_reference_free[OF w1(1), of p] obtain w2 where
    "unlink_reference p w1 = Inr w2"
    "files w2 = (case p of None \<Rightarrow> files w1 | Some q \<Rightarrow> AList.delete q (files w1))"
    by blast
  then show ?thesis
    using w1(2) unfolding tts_except_def Let_def w1_def[symmetric] by (cases p) simp_all
qed

lemma files_tts_synthesize:
  assumes free: "undeletable w = {}" and writes: "unwritable w = {}"
  shows "files (snd (tts_synthesize E tx data w)) = files w"
proof (cases "tts_config E data")
  case (Inl e0)
  from files_tts_except[OF free, of e0 None] show ?thesis
    by (auto simp: tts_synthesize_def Inl)
next
  case (Inr config)
  show ?thesis
  proof (cases "tts_reference data w")
    case (Pair a w2)
    have free2: "undeletable w2 = {}"
      using undeletable_tts_reference[of data w] Pair free by simp
    note ref = files_tts_reference[OF Pair writes]
    show ?thesis
    proof (cases a)
      case (Inl e0)
      with ref have "files w2 = files w" by simp
      with files_tts_except[OF free2, of e0 None] show ?thesis
        by (auto simp: tts_synthesize_def Inr Pair Inl)
    next
      case path: (Inr p)
      show ?thesis
      proof (cases "tts_generate E tx config p w2")
        case gen: (Pair b w3)
        have free3: "undeletable w3 = {}"
          using undeletable_tts_generate[of E tx config p w2] gen free2 by simp
        note g = files_tts_generate[OF free2 gen]
        have restored: "(case p of None \<Rightarrow> files w2 | Some q \<Rightarrow> AList.delete q (files w2)) = files w"
          using ref path by (cases p) (auto simp: delete_fresh)
        show ?thesis
        proof (cases b)
          case (Inl e0)
          with g have "files w3 = files w2" by simp
          with files_tts_except[OF free3, of e0 p] restored show ?thesis
            by (auto simp: tts_synthesize_def Inr Pair path gen Inl split: option.splits)
        next
          case ok: (Inr resp)
          with g restored show ?thesis
            by (simp add: tts_synthesize_def Inr Pair path gen)
        qed
      qed
    qed
  qed
qed

lemma unwritable_tts_text: "unwritable (snd (tts_text data w)) = unwritable w"
proof (cases "py_in ''text'' data")
  case (Inl e)
  then show ?thesis by (simp add: tts_text_def)
next
  case (Inr present)
  show ?thesis
  proof (cases "py_getitem data ''text''")
    case (Inl e)
    then show ?thesis by (simp add: tts_text_def Inr)
  next
    case got: (Inr v)
    show ?thesis
      by (cases v) (simp_all add: tts_text_def Inr got log_to_def)
  qed
qed

lemma files_restored_when_unlink_works:
  assumes free: "undeletable w = {}" and writes: "unwritable w = {}"
  shows "files (snd (process_tts_request E data w)) = files w"
proof (cases "tts_text data w")
  case (Pair a w1)
  have w1: "undeletable w1 = {}" "files w1 = files w" "unwritable w1 = {}"
    using undeletable_tts_text[of data w] files_tts_text[of data w]
          unwritable_tts_text[of data w] Pair free writes by simp_all
  show ?thesis
  proof (cases a)
    case (Inl e0)
    from files_tts_except[OF w1(1), of e0 None] w1(2) show ?thesis
      by (auto simp: process_tts_request_def Pair Inl)
  next
    case (Inr tx)
    from files_tts_synthesize[OF w1(1) w1(3), of E tx data] w1(2) show ?thesis
      by (simp add: process_tts_request_def Pair Inr)
  qed
qed

text \<open>The codec on a file: \<^verbatim>\<open>_decode_audio\<close> applied to the text that \<^verbatim>\<open>b64encode\<close> made of
  some bytes writes exactly these bytes to a new file.\<close>

lemma decode_audio_b64encode:
  "fresh_path (files w) \<notin> unwritable w \<Longrightarrow>
   decode_audio (JStr (b64encode bs)) w =
     (Inr (fresh_path (files w)),
      w\<lparr>files := AList.update (fresh_path (files w)) bs (files w)\<rparr>)"
  using a2b_base64_b64encode[of 0 0 "[]" bs]
  by (simp add: decode_audio_def b64decode_def b64encode_ascii Let_def)

text \<open>
  When \<^verbatim>\<open>write\<close> fails in \<^verbatim>\<open>_decode_audio\<close>, the file that \<^verbatim>\<open>NamedTemporaryFile\<close> created
  stays: its path never reaches \<^verbatim>\<open>reference_audio_path\<close>, so neither clean-up of
  \<^verbatim>\<open>process_tts_request\<close> removes it. The request is answered with the error response.
\<close>

lemma reference_file_left_when_write_fails:
  "fst (process_tts_request stub_env
          (JObj [(''text'', JStr ''Hola''), (''reference_audio'', JStr ''SGk='')])
          (idle\<lparr>unwritable := {0}\<rparr>))
     = Inr (tts_response_error ''Invalid base64 audio data'')
   \<and> files (snd (process_tts_request stub_env
          (JObj [(''text'', JStr ''Hola''), (''reference_audio'', JStr ''SGk='')])
          (idle\<lparr>unwritable := {0}\<rparr>)))
     = [(0, [])]"
  by (simp add: process_tts_request_def tts_text_def strip_def is_space_def tts_defs
                stub_env_def idle_def stub_reference)

end
